theory Spec2Isabelle
  imports Complex_Main
begin

section \<open>Python values used by the services\<close>

text \<open>
  A Python \<open>str\<close> is modelled as a \<^typ>\<open>string\<close> whose characters stand for the code
  points below 256, one character per code point, so that \<^const>\<open>length\<close> is Python's
  \<open>len\<close>.  On these code points \<open>str.isspace\<close> (also the regular expression class
  \<open>\s\<close>) holds of U+0009..U+000D, U+001C..U+001F, U+0020, U+0085 and U+00A0, the
  class \<open>\d\<close> is \<open>0\<close>..\<open>9\<close>, and \<open>str.lower\<close> moves \<open>A\<close>..\<open>Z\<close> and
  U+00C0..U+00DE (without U+00D7) up by 32.
\<close>

definition py_isspace :: "char \<Rightarrow> bool" where
  "py_isspace c =
     (let n = (of_char c :: nat)
      in (9 \<le> n \<and> n \<le> 13) \<or> (28 \<le> n \<and> n \<le> 32) \<or> n = 133 \<or> n = 160)"

definition py_isdigit :: "char \<Rightarrow> bool" where
  "py_isdigit c = (let n = (of_char c :: nat) in 48 \<le> n \<and> n \<le> 57)"

definition lower_char :: "char \<Rightarrow> char" where
  "lower_char c =
     (let n = (of_char c :: nat)
      in if (65 \<le> n \<and> n \<le> 90) \<or> (192 \<le> n \<and> n \<le> 222 \<and> n \<noteq> 215)
         then char_of (n + 32) else c)"

definition py_lower :: "string \<Rightarrow> string" where
  "py_lower s = map lower_char s"

definition py_strip :: "string \<Rightarrow> string" where
  "py_strip s = rev (dropWhile py_isspace (rev (dropWhile py_isspace s)))"

text \<open>\<open>str.split()\<close> without argument: the maximal runs of non-whitespace.\<close>

fun split_acc :: "string \<Rightarrow> string \<Rightarrow> string list" where
  "split_acc cur [] = (if cur = [] then [] else [cur])"
| "split_acc cur (c # cs) =
     (if py_isspace c then (if cur = [] then split_acc [] cs else cur # split_acc [] cs)
      else split_acc (cur @ [c]) cs)"

definition py_split :: "string \<Rightarrow> string list" where
  "py_split s = split_acc [] s"

text \<open>\<open>marker in s\<close> for two strings: \<open>marker\<close> occurs in \<open>s\<close> as a substring.\<close>

fun starts_with :: "string \<Rightarrow> string \<Rightarrow> bool" where
  "starts_with [] s = True"
| "starts_with (m # ms) [] = False"
| "starts_with (m # ms) (c # cs) = (m = c \<and> starts_with ms cs)"

fun str_in :: "string \<Rightarrow> string \<Rightarrow> bool" where
  "str_in m [] = (m = [])"
| "str_in m (c # cs) = (starts_with m (c # cs) \<or> str_in m cs)"

text \<open>
  The value of a string of decimal digits, as captured by the group \<open>(\d+)\<close>, and the
  decimal numeral that an f-string prints for a non-negative integer.
\<close>

definition digit_value :: "char \<Rightarrow> nat" where
  "digit_value c = (of_char c :: nat) - 48"

definition int_of_digits :: "string \<Rightarrow> nat" where
  "int_of_digits s = foldl (\<lambda>n c. 10 * n + digit_value c) 0 s"

fun str_of_nat :: "nat \<Rightarrow> string" where
  "str_of_nat n =
     (if n < 10 then [char_of (48 + n)]
      else str_of_nat (n div 10) @ [char_of (48 + n mod 10)])"

text \<open>
  A Python \<open>float\<close> is a finite number, an infinity or NaN.  Only comparisons with
  integer constants and \<open>int(x)\<close> are applied to floats here; both are exact on the
  value of the float, which is kept as a rational number.
\<close>

datatype pyfloat = Finite rat | PosInf | NegInf | NaN

text \<open>
  What \<open>json.loads\<close> returns: \<open>None\<close>, \<open>bool\<close>, \<open>int\<close>, \<open>float\<close>, \<open>str\<close>,
  \<open>list\<close> and \<open>dict\<close> with string keys.  A \<open>dict\<close> is the list of its items in
  insertion order; \<open>json.loads\<close> builds it with each key once.
\<close>

datatype json =
    JNone
  | JBool bool
  | JInt int
  | JFloat pyfloat
  | JStr string
  | JList "json list"
  | JDict "(string \<times> json) list"

text \<open>
  The exceptions of the services, each with the text that \<open>str(e)\<close> gives.
  \<open>Exception\<close> stands for any other subclass of \<open>Exception\<close>, as raised by the crew.
\<close>

datatype exn =
    ValueError string
  | JSONDecodeError string
  | TypeError string
  | AttributeError string
  | OverflowError string
  | KeyError string
  | Exception string

fun str_exn :: "exn \<Rightarrow> string" where
  "str_exn (ValueError m) = m"
| "str_exn (JSONDecodeError m) = m"
| "str_exn (TypeError m) = m"
| "str_exn (AttributeError m) = m"
| "str_exn (OverflowError m) = m"
| "str_exn (KeyError m) = m"
| "str_exn (Exception m) = m"

text \<open>
  \<open>int(s)\<close> for a string of decimal digits.  The interpreter (CPython from 3.11, and
  the security releases of the versions before) refuses a string of more than
  \<open>sys.get_int_max_str_digits()\<close> digits, 4300 unless configured otherwise, leading
  zeros included, with a \<open>ValueError\<close>.  For the same reason \<open>json.loads\<close> returns
  no \<open>int\<close> of more digits.
\<close>

definition int_max_str_digits :: nat where
  "int_max_str_digits = 4300"

definition py_int_str :: "string \<Rightarrow> exn + int" where
  "py_int_str s =
     (if length s > int_max_str_digits
      then Inl (ValueError
             (''Exceeds the limit ('' @ str_of_nat int_max_str_digits
              @ '' digits) for integer string conversion: value has ''
              @ str_of_nat (length s)
              @ '' digits; use sys.set_int_max_str_digits() to increase the limit''))
      else Inr (int (int_of_digits s)))"

text \<open>
  The outcome of \<open>json.loads(result_str)\<close>: the decoded value, a \<open>JSONDecodeError\<close>
  with its message, or another exception (\<open>RecursionError\<close> on deep nesting).
\<close>

datatype loaded = Loaded json | DecodeError string | LoadRaised exn

fun type_name :: "json \<Rightarrow> string" where
  "type_name JNone = ''NoneType''"
| "type_name (JBool b) = ''bool''"
| "type_name (JInt n) = ''int''"
| "type_name (JFloat f) = ''float''"
| "type_name (JStr s) = ''str''"
| "type_name (JList xs) = ''list''"
| "type_name (JDict kvs) = ''dict''"

text \<open>\<open>isinstance(v, (int, float))\<close>, which holds of \<open>bool\<close> too, with the number.\<close>

fun number_of :: "json \<Rightarrow> pyfloat option" where
  "number_of (JInt n) = Some (Finite (of_int n))"
| "number_of (JBool b) = Some (Finite (if b then 1 else 0))"
| "number_of (JFloat f) = Some f"
| "number_of v = None"

text \<open>\<open>x < c\<close> and \<open>x > c\<close> for a number \<open>x\<close> and an integer constant \<open>c\<close>.\<close>

fun float_less :: "pyfloat \<Rightarrow> int \<Rightarrow> bool" where
  "float_less (Finite q) c = (q < of_int c)"
| "float_less NegInf c = True"
| "float_less PosInf c = False"
| "float_less NaN c = False"

fun float_greater :: "pyfloat \<Rightarrow> int \<Rightarrow> bool" where
  "float_greater (Finite q) c = (q > of_int c)"
| "float_greater PosInf c = True"
| "float_greater NegInf c = False"
| "float_greater NaN c = False"

text \<open>\<open>int(x)\<close> for a number: truncation towards zero; it raises on infinities and NaN.\<close>

fun py_int :: "pyfloat \<Rightarrow> exn + int" where
  "py_int (Finite q) = Inr (if q < 0 then \<lceil>q\<rceil> else \<lfloor>q\<rfloor>)"
| "py_int PosInf = Inl (OverflowError ''cannot convert float infinity to integer'')"
| "py_int NegInf = Inl (OverflowError ''cannot convert float infinity to integer'')"
| "py_int NaN = Inl (ValueError ''cannot convert float NaN to integer'')"

text \<open>Truth value of a decoded value, as \<open>or\<close> and \<open>not\<close> test it.\<close>

fun truthy :: "json \<Rightarrow> bool" where
  "truthy JNone = False"
| "truthy (JBool b) = b"
| "truthy (JInt n) = (n \<noteq> 0)"
| "truthy (JFloat f) = (f \<noteq> Finite 0)"
| "truthy (JStr s) = (s \<noteq> [])"
| "truthy (JList xs) = (xs \<noteq> [])"
| "truthy (JDict kvs) = (kvs \<noteq> [])"

text \<open>\<open>d.get(k, default)\<close> on the items of a \<open>dict\<close>.\<close>

definition dict_get :: "(string \<times> json) list \<Rightarrow> string \<Rightarrow> json \<Rightarrow> json" where
  "dict_get kvs k dflt = (case map_of kvs k of None \<Rightarrow> dflt | Some v \<Rightarrow> v)"

section \<open>The regular expressions of the recovery tiers\<close>

text \<open>
  The patterns of \<open>resume_scorer.py\<close> are sequences of literal characters and of
  repeated character classes, some of them capturing.  \<open>match_here\<close> is the
  backtracking matcher of \<open>re\<close> on such sequences: a greedy repetition tries the longest
  run first, a lazy one the shortest, and the first alternative under which the rest of
  the pattern matches is taken.  It returns the captured groups and the unread text.
\<close>

datatype cls = Space | Digit | NotQuote

fun in_cls :: "cls \<Rightarrow> char \<Rightarrow> bool" where
  "in_cls Space c = py_isspace c"
| "in_cls Digit c = py_isdigit c"
| "in_cls NotQuote c = (c \<noteq> CHR 0x22)"

datatype quant = Star | Plus | LazyStar

datatype atom = Lit char | Many cls quant | Group cls quant

fun is_group :: "atom \<Rightarrow> bool" where
  "is_group (Group cl q) = True"
| "is_group a = False"

fun min_length :: "atom \<Rightarrow> nat" where
  "min_length (Lit c) = 1"
| "min_length (Many cl q) = (if q = Plus then 1 else 0)"
| "min_length (Group cl q) = (if q = Plus then 1 else 0)"

fun candidates :: "quant \<Rightarrow> nat \<Rightarrow> nat list" where
  "candidates Star n = rev [0..<Suc n]"
| "candidates Plus n = rev [1..<Suc n]"
| "candidates LazyStar n = [0..<Suc n]"

fun first_some :: "(nat \<Rightarrow> 'a option) \<Rightarrow> nat list \<Rightarrow> 'a option" where
  "first_some f [] = None"
| "first_some f (k # ks) = (case f k of Some r \<Rightarrow> Some r | None \<Rightarrow> first_some f ks)"

primrec match_here :: "atom list \<Rightarrow> string \<Rightarrow> (string list \<times> string) option" where
  "match_here [] s = Some ([], s)"
| "match_here (a # as) s =
     (case a of
        Lit c \<Rightarrow>
          (case s of [] \<Rightarrow> None
           | x # xs \<Rightarrow> if x = c then match_here as xs else None)
      | Many cl q \<Rightarrow>
          first_some (\<lambda>k. match_here as (drop k s))
            (candidates q (length (takeWhile (in_cls cl) s)))
      | Group cl q \<Rightarrow>
          first_some (\<lambda>k. map_option (\<lambda>(gs, r). (take k s # gs, r)) (match_here as (drop k s)))
            (candidates q (length (takeWhile (in_cls cl) s))))"

text \<open>
  \<open>pattern.findall(s)\<close>: the groups of the successive non-overlapping matches, found
  from left to right; after a match the search goes on where the match ended.  (A match
  of the empty string, which none of the patterns below has, moves on by one character.)
\<close>

function findall :: "atom list \<Rightarrow> string \<Rightarrow> string list list" where
  "findall p s =
     (case match_here p s of
        Some (gs, r) \<Rightarrow>
          (if length r < length s then gs # findall p r
           else gs # (case s of [] \<Rightarrow> [] | c # cs \<Rightarrow> findall p cs))
      | None \<Rightarrow> (case s of [] \<Rightarrow> [] | c # cs \<Rightarrow> findall p cs))"
  by pat_completeness auto
termination
  by (relation "measure (\<lambda>(p, s). length s)") auto

definition lits :: "string \<Rightarrow> atom list" where
  "lits s = map Lit s"

definition ws :: "atom list" where
  "ws = [Many Space Star]"

text \<open>
  \<^verbatim>\<open>\{\s*"criterion":\s*"([^"]*)"\s*,\s*"score":\s*(\d+)\s*,\s*"justification":\s*"([^"]*?)"\s*\}\<close>
\<close>

definition score_object_pattern :: "atom list" where
  "score_object_pattern =
     lits ''{'' @ ws @ lits ''\"criterion\":'' @ ws @ lits ''\"'' @ [Group NotQuote Star]
     @ lits ''\"'' @ ws @ lits '','' @ ws @ lits ''\"score\":'' @ ws @ [Group Digit Plus]
     @ ws @ lits '','' @ ws @ lits ''\"justification\":'' @ ws @ lits ''\"''
     @ [Group NotQuote LazyStar] @ lits ''\"'' @ ws @ lits ''}''"

text \<open>\<^verbatim>\<open>"criterion":\s*"([^"]*)"\<close>\<close>

definition criterion_pattern :: "atom list" where
  "criterion_pattern =
     lits ''\"criterion\":'' @ ws @ lits ''\"'' @ [Group NotQuote Star] @ lits ''\"''"

text \<open>\<^verbatim>\<open>"score":\s*(\d+)\<close>\<close>

definition score_pattern :: "atom list" where
  "score_pattern = lits ''\"score\":'' @ ws @ [Group Digit Plus]"

text \<open>\<^verbatim>\<open>(\d+)\<close>\<close>

definition number_pattern :: "atom list" where
  "number_pattern = [Group Digit Plus]"


section \<open>The scoring service: \<open>resume_scorer.py\<close>\<close>

subsection \<open>The \<open>scores\<close> dictionary\<close>

text \<open>
  The result is a Python \<open>dict\<close> from criteria to integers, kept as the list of its
  items in insertion order.  Its keys are whatever the response gave as \<open>criterion\<close>:
  a key must be hashable (no \<open>list\<close>, no \<open>dict\<close>), and two keys are the same
  entry when they are equal in Python, where numbers compare by value across \<open>bool\<close>,
  \<open>int\<close> and \<open>float\<close> (\<open>json.loads\<close> returns one object for every \<open>NaN\<close>, which
  makes it one key).  Storing under a key that is present replaces the value in place.
\<close>

type_synonym scores = "(json \<times> int) list"

definition quoted :: "string \<Rightarrow> string" where
  "quoted s = [CHR 0x27] @ s @ [CHR 0x27]"

fun hashable :: "json \<Rightarrow> bool" where
  "hashable (JList xs) = False"
| "hashable (JDict kvs) = False"
| "hashable v = True"

definition key_eq :: "json \<Rightarrow> json \<Rightarrow> bool" where
  "key_eq a b =
     (case (number_of a, number_of b) of
        (Some x, Some y) \<Rightarrow> x = y
      | (None, None) \<Rightarrow> a = b
      | _ \<Rightarrow> False)"

fun dict_store :: "json \<Rightarrow> int \<Rightarrow> scores \<Rightarrow> scores" where
  "dict_store k v [] = [(k, v)]"
| "dict_store k v ((k', v') # d) =
     (if key_eq k' k then (k', v) # d else (k', v') # dict_store k v d)"

definition dict_has :: "json \<Rightarrow> scores \<Rightarrow> bool" where
  "dict_has k d = list_ex (\<lambda>(k', v). key_eq k' k) d"

definition setitem :: "json \<Rightarrow> int \<Rightarrow> scores \<Rightarrow> exn + scores" where
  "setitem k v d =
     (if hashable k then Inr (dict_store k v d)
      else Inl (TypeError (''unhashable type: '' @ quoted (type_name k))))"

subsection \<open>Lines 59--147: decoding, and the recovery tiers on a \<open>JSONDecodeError\<close>\<close>

definition score_object :: "string \<Rightarrow> int \<Rightarrow> string \<Rightarrow> json" where
  "score_object criterion score justification =
     JDict [(''criterion'', JStr criterion), (''score'', JInt score),
            (''justification'', JStr justification)]"

text \<open>
  For a pattern with one group \<open>findall\<close> returns the texts of that group, for a
  pattern with three groups the triples of texts.
\<close>

definition findall1 :: "atom list \<Rightarrow> string \<Rightarrow> string list" where
  "findall1 p s = concat (findall p s)"

text \<open>
  Lines 76--93, the loop over the complete objects found: an object whose criterion was
  seen before is skipped, and \<open>int(score)\<close> may raise.  (The last equation is for a
  match that is not a triple, which \<open>score_object_pattern\<close> never gives.)
\<close>

fun reconstruct :: "string list list \<Rightarrow> string set \<Rightarrow> exn + json list" where
  "reconstruct [] unique_criteria = Inr []"
| "reconstruct ([criterion, score, justification] # matches) unique_criteria =
     (if criterion \<in> unique_criteria then reconstruct matches unique_criteria
      else
        (case py_int_str score of
           Inl e \<Rightarrow> Inl e
         | Inr n \<Rightarrow>
             (case reconstruct matches (insert criterion unique_criteria) of
                Inl e \<Rightarrow> Inl e
              | Inr scores_objects \<Rightarrow>
                  Inr (score_object criterion n justification # scores_objects))))"
| "reconstruct (m # matches) unique_criteria = reconstruct matches unique_criteria"

text \<open>
  A loop that appends one object for every index and stops at the first exception.
\<close>

fun collect :: "('a \<Rightarrow> exn + 'b) \<Rightarrow> 'a list \<Rightarrow> exn + 'b list" where
  "collect f [] = Inr []"
| "collect f (i # rest) =
     (case f i of
        Inl e \<Rightarrow> Inl e
      | Inr x \<Rightarrow> (case collect f rest of Inl e \<Rightarrow> Inl e | Inr xs \<Rightarrow> Inr (x # xs)))"

text \<open>Lines 107--116: criteria and scores found separately, paired by position.\<close>

definition pair_fields :: "string list \<Rightarrow> string list \<Rightarrow> exn + json list" where
  "pair_fields criteria_matches score_matches =
     collect
       (\<lambda>i. case py_int_str (score_matches ! i) of
               Inl e \<Rightarrow> Inl e
             | Inr n \<Rightarrow>
                 Inr (score_object (criteria_matches ! i) n
                        (''Recovered from partial response (item '' @ str_of_nat (i + 1)
                         @ '')'')))
       [0..<min (length criteria_matches) (length score_matches)]"

text \<open>Lines 127--141: the numbers of the text, paired with the criteria asked for.\<close>

definition pair_numbers :: "string list \<Rightarrow> string list \<Rightarrow> exn + json list" where
  "pair_numbers number_matches criteria =
     collect
       (\<lambda>i. case py_int_str (number_matches ! i) of
               Inl e \<Rightarrow> Inl e
             | Inr score_value \<Rightarrow>
                 Inr (score_object (criteria ! i) (if score_value > 5 then 5 else score_value)
                        ''Extracted from numeric values in response''))
       [0..<min (length number_matches) (length criteria)]"

text \<open>
  Which branch of lines 59--147 is taken for \<open>result_dict\<close>: the decoded value
  (line 60), the complete objects (line 96), the paired fields (line 118), the paired
  numbers (line 143) or nothing (line 147).  The branch is entered before its loop runs,
  so that it is known also when the loop raises and \<open>result_dict\<close> is not assigned.
\<close>

datatype tier = Direct_parse | Complete_objects | Separate_fields | Numeric_values | No_data

definition scores_dict :: "json list \<Rightarrow> json" where
  "scores_dict scores_objects = JDict [(''scores'', JList scores_objects)]"

definition as_scores_dict :: "exn + json list \<Rightarrow> exn + json" where
  "as_scores_dict r =
     (case r of Inl e \<Rightarrow> Inl e | Inr scores_objects \<Rightarrow> Inr (scores_dict scores_objects))"

definition recover :: "string \<Rightarrow> string list \<Rightarrow> tier \<times> (exn + json)" where
  "recover result_str criteria =
     (let matches = findall score_object_pattern result_str
      in if matches \<noteq> [] then (Complete_objects, as_scores_dict (reconstruct matches {}))
         else
           let criteria_matches = findall1 criterion_pattern result_str;
               score_matches = findall1 score_pattern result_str
           in if criteria_matches \<noteq> [] \<or> score_matches \<noteq> []
              then (Separate_fields,
                    as_scores_dict (pair_fields criteria_matches score_matches))
              else
                let number_matches = findall1 number_pattern result_str
                in if number_matches \<noteq> [] \<and> length criteria > 0
                   then (Numeric_values,
                         as_scores_dict (pair_numbers number_matches criteria))
                   else (No_data, Inr (scores_dict [])))"

text \<open>
  Lines 59--147: the branch taken, with \<open>result_dict\<close> or the exception of the
  branch.  An exception of \<open>json.loads\<close> other than \<open>JSONDecodeError\<close> leaves
  the inner \<open>try\<close> before any branch.
\<close>

definition load_or_recover ::
  "loaded \<Rightarrow> string \<Rightarrow> string list \<Rightarrow> exn + tier \<times> (exn + json)" where
  "load_or_recover ld result_str criteria =
     (case ld of
        Loaded v \<Rightarrow> Inr (Direct_parse, Inr v)
      | DecodeError msg \<Rightarrow> Inr (recover result_str criteria)
      | LoadRaised e \<Rightarrow> Inl e)"

text \<open>
  The recovery steps that have run when a branch is reached: the scan for complete
  objects (line 72), the scans for separate fields (lines 100 and 103) and the scan for
  numbers (line 123).
\<close>

definition tier2_ran :: "tier \<Rightarrow> bool" where
  "tier2_ran t = (t \<noteq> Direct_parse)"

definition tier3_ran :: "tier \<Rightarrow> bool" where
  "tier3_ran t = (t = Separate_fields \<or> t = Numeric_values \<or> t = No_data)"

definition tier4_ran :: "tier \<Rightarrow> bool" where
  "tier4_ran t = (t = Numeric_values \<or> t = No_data)"

subsection \<open>Lines 149--182: from \<open>result_dict\<close> to the scores\<close>

text \<open>Lines 153--159: the value iterated over; an empty list when there is no \<open>scores\<close>.\<close>

definition scores_of :: "json \<Rightarrow> json" where
  "scores_of result_dict =
     (case result_dict of
        JDict kvs \<Rightarrow> (case map_of kvs ''scores'' of Some v \<Rightarrow> v | None \<Rightarrow> JList [])
      | _ \<Rightarrow> JList [])"

text \<open>\<open>for score_obj in v\<close>: the elements of a list, the keys of a dict, the characters
  of a string; anything else is not iterable.\<close>

fun py_iter :: "json \<Rightarrow> exn + json list" where
  "py_iter (JList xs) = Inr xs"
| "py_iter (JDict kvs) = Inr (map (\<lambda>(k, v). JStr k) kvs)"
| "py_iter (JStr s) = Inr (map (\<lambda>c. JStr [c]) s)"
| "py_iter v = Inl (TypeError (quoted (type_name v) @ '' object is not iterable''))"

text \<open>\<open>k in score_obj\<close> for a string \<open>k\<close>.\<close>

fun py_contains :: "string \<Rightarrow> json \<Rightarrow> exn + bool" where
  "py_contains k (JDict kvs) = Inr (k \<in> set (map fst kvs))"
| "py_contains k (JList xs) = Inr (JStr k \<in> set xs)"
| "py_contains k (JStr s) = Inr (str_in k s)"
| "py_contains k v =
     Inl (TypeError (''argument of type '' @ quoted (type_name v) @ '' is not iterable''))"

text \<open>\<open>all(k in score_obj for k in ('criterion', 'score'))\<close>, which stops at the first
  key that is missing.\<close>

definition has_fields :: "json \<Rightarrow> exn + bool" where
  "has_fields score_obj =
     (case py_contains ''criterion'' score_obj of
        Inl e \<Rightarrow> Inl e
      | Inr b \<Rightarrow> if b then py_contains ''score'' score_obj else Inr False)"

text \<open>\<open>score_obj[k]\<close> for a string \<open>k\<close>.\<close>

fun py_getitem :: "json \<Rightarrow> string \<Rightarrow> exn + json" where
  "py_getitem (JDict kvs) k =
     (case map_of kvs k of Some v \<Rightarrow> Inr v | None \<Rightarrow> Inl (KeyError (quoted k)))"
| "py_getitem (JList xs) k = Inl (TypeError ''list indices must be integers or slices, not str'')"
| "py_getitem (JStr s) k = Inl (TypeError (''string indices must be integers, not '' @ quoted ''str''))"
| "py_getitem v k = Inl (TypeError (quoted (type_name v) @ '' object is not subscriptable''))"

text \<open>
  Lines 168--172, the integer stored for a score: a value that is no number gives
  \<open>max(0, min(5, 0))\<close>, a number below 0 or above 5 gives \<open>max(0, min(5, int(score)))\<close>,
  any other number gives \<open>int(score)\<close>.
\<close>

definition clamp_score :: "json \<Rightarrow> exn + int" where
  "clamp_score score =
     (case number_of score of
        None \<Rightarrow> Inr (max 0 (min 5 0))
      | Some x \<Rightarrow>
          if float_less x 0 \<or> float_greater x 5
          then (case py_int x of Inl e \<Rightarrow> Inl e | Inr n \<Rightarrow> Inr (max 0 (min 5 n)))
          else py_int x)"

text \<open>Lines 160--172, one round of the loop.\<close>

definition process_score_obj :: "json \<Rightarrow> scores \<Rightarrow> exn + scores" where
  "process_score_obj score_obj scores =
     (case has_fields score_obj of
        Inl e \<Rightarrow> Inl e
      | Inr b \<Rightarrow>
          if \<not> b then Inr scores
          else
            (case py_getitem score_obj ''criterion'' of
               Inl e \<Rightarrow> Inl e
             | Inr criterion \<Rightarrow>
                 (case py_getitem score_obj ''score'' of
                    Inl e \<Rightarrow> Inl e
                  | Inr score \<Rightarrow>
                      (case clamp_score score of
                         Inl e \<Rightarrow> Inl e
                       | Inr n \<Rightarrow> setitem criterion n scores))))"

fun process_scores :: "json list \<Rightarrow> scores \<Rightarrow> exn + scores" where
  "process_scores [] scores = Inr scores"
| "process_scores (score_obj # rest) scores =
     (case process_score_obj score_obj scores of
        Inl e \<Rightarrow> Inl e
      | Inr scores' \<Rightarrow> process_scores rest scores')"

text \<open>Lines 175--179: a criterion without a score gets 0.\<close>

fun fill_missing :: "string list \<Rightarrow> scores \<Rightarrow> scores" where
  "fill_missing [] scores = scores"
| "fill_missing (criterion # rest) scores =
     fill_missing rest
       (if \<not> dict_has (JStr criterion) scores then dict_store (JStr criterion) 0 scores
        else scores)"

text \<open>Line 189: \<open>{criterion: 0 for criterion in criteria}\<close>.\<close>

definition default_scores :: "string list \<Rightarrow> scores" where
  "default_scores criteria = foldl (\<lambda>d criterion. dict_store (JStr criterion) 0 d) [] criteria"

text \<open>
  The scores recovered from a response, before the criteria asked for are filled in
  (lines 59--172), and the body of the inner \<open>try\<close> (lines 48--182).
\<close>

definition recovered_scores :: "loaded \<Rightarrow> string \<Rightarrow> string list \<Rightarrow> exn + scores" where
  "recovered_scores ld result_str criteria =
     (case load_or_recover ld result_str criteria of
        Inl e \<Rightarrow> Inl e
      | Inr (t, Inl e) \<Rightarrow> Inl e
      | Inr (t, Inr result_dict) \<Rightarrow>
          (case py_iter (scores_of result_dict) of
             Inl e \<Rightarrow> Inl e
           | Inr score_objs \<Rightarrow> process_scores score_objs []))"

definition parse_response :: "loaded \<Rightarrow> string \<Rightarrow> string list \<Rightarrow> exn + scores" where
  "parse_response ld result_str criteria =
     (case recovered_scores ld result_str criteria of
        Inl e \<Rightarrow> Inl e
      | Inr scores \<Rightarrow> Inr (fill_missing criteria scores))"

text \<open>
  \<open>score_resume_against_criteria\<close>.  The crew is outside the service: \<open>kickoff\<close> is
  what the call of the crew did, an exception or the text \<open>str(result)\<close>, and \<open>ld\<close> is
  what \<open>json.loads\<close> did on that text.  Empty input raises before the crew is called
  (lines 25--31); an exception of the crew is raised again as a \<open>ValueError\<close>
  (lines 191--193); any exception in the inner \<open>try\<close> gives the default scores
  (lines 184--189).  The service is taken as the unit it is, for every text: that
  \<open>ResumeRankerCrew.kickoff\<close> repairs a scoring response that does not decode before
  it returns it is not assumed.
\<close>

definition score_resume_against_criteria ::
  "(exn + string) \<Rightarrow> loaded \<Rightarrow> string \<Rightarrow> string list \<Rightarrow> exn + scores" where
  "score_resume_against_criteria kickoff ld resume_content criteria =
     (if resume_content = [] \<or> py_strip resume_content = []
      then Inl (ValueError ''Resume content cannot be empty'')
      else if criteria = []
      then Inl (ValueError ''At least one criterion must be provided'')
      else
        (case kickoff of
           Inl e \<Rightarrow> Inl (ValueError (''Failed to score resume: '' @ str_exn e))
         | Inr result_str \<Rightarrow>
             (case parse_response ld result_str criteria of
                Inl e \<Rightarrow> Inr (default_scores criteria)
              | Inr scores \<Rightarrow> Inr scores)))"


section \<open>The name service: \<open>name_extractor.py\<close>\<close>

text \<open>
  The service returns a \<open>dict\<close> with the keys \<open>name\<close>, \<open>confidence\<close> and \<open>source\<close>.
  \<open>file_name\<close> is an optional string; \<open>None\<close> and the empty string are false.
\<close>

definition name_result :: "json \<Rightarrow> json \<Rightarrow> json \<Rightarrow> json" where
  "name_result name confidence source =
     JDict [(''name'', name), (''confidence'', confidence), (''source'', source)]"

fun opt_str :: "string option \<Rightarrow> json" where
  "opt_str None = JNone"
| "opt_str (Some s) = JStr s"

definition rejected :: "string option \<Rightarrow> string \<Rightarrow> json" where
  "rejected file_name source = name_result (opt_str file_name) (JInt 0) (JStr source)"

definition example_names :: "string list" where
  "example_names =
     [''emily chen'', ''john smith'', ''john doe'', ''jane doe'', ''emily j. miller'',
      ''james wilson'', ''sarah johnson'', ''[actual extracted name]'', ''your name'',
      ''candidate name'', ''resume'']"

definition markers :: "string list" where
  "markers = [''['', '']'', ''{'', ''}'', ''<'', ''>'', ''example'']"

text \<open>\<open>confidence < 70\<close>: a comparison of numbers, a \<open>TypeError\<close> on anything else.\<close>

definition below_70 :: "json \<Rightarrow> exn + bool" where
  "below_70 confidence =
     (case number_of confidence of
        Some x \<Rightarrow> Inr (float_less x 70)
      | None \<Rightarrow>
          Inl (TypeError (quoted ''<'' @ '' not supported between instances of ''
                 @ quoted (type_name confidence) @ '' and '' @ quoted ''int'')))"

text \<open>
  Lines 51--147, on the decoded response.  \<open>result_dict.get\<close> needs a \<open>dict\<close> and
  \<open>.strip()\<close> a \<open>str\<close>; otherwise an \<open>AttributeError\<close> is raised.
\<close>

definition validate_name :: "json \<Rightarrow> string option \<Rightarrow> exn + json" where
  "validate_name result_dict file_name =
     (case result_dict of
        JDict kvs \<Rightarrow>
          (case dict_get kvs ''name'' (JStr []) of
             JStr unstripped \<Rightarrow>
               (let name = py_strip unstripped;
                    confidence = dict_get kvs ''confidence'' (JInt 0);
                    source = dict_get kvs ''source'' (JStr [])
                in if py_lower name = ''emily chen''
                   then Inr (rejected file_name ''forbidden_example_name'')
                   else if name = []
                   then Inr (rejected file_name ''empty_result'')
                   else if py_lower name \<in> set example_names
                   then Inr (rejected file_name ''example_name_rejected'')
                   else if list_ex (\<lambda>marker. str_in marker (py_lower name)) markers
                   then Inr (rejected file_name ''placeholder_rejected'')
                   else if length (py_split name) < 2
                   then Inr (rejected file_name ''invalid_structure'')
                   else if length name > 50
                   then Inr (rejected file_name ''name_too_long'')
                   else
                     (case below_70 confidence of
                        Inl e \<Rightarrow> Inl e
                      | Inr low \<Rightarrow>
                          if low \<and> truthy (opt_str file_name)
                          then Inr (name_result (opt_str file_name) (JInt 100)
                                      (JStr ''filename_fallback''))
                          else Inr (name_result (JStr name) confidence
                                      (if truthy source then source
                                       else JStr ''content_extraction''))))
           | v \<Rightarrow>
               Inl (AttributeError (quoted (type_name v) @ '' object has no attribute ''
                      @ quoted ''strip'')))
      | v \<Rightarrow>
          Inl (AttributeError (quoted (type_name v) @ '' object has no attribute ''
                 @ quoted ''get'')))"

text \<open>
  \<open>extract_candidate_name\<close>: \<open>kickoff\<close> and \<open>ld\<close> are what the crew and
  \<open>json.loads\<close> did, as for the scoring service; the content of the resume goes to
  the crew only.  A \<open>JSONDecodeError\<close> gives
  \<open>parse_error\<close> (lines 149--151), any other exception gives a source that starts
  with \<open>error:\<close> (lines 153--155).
\<close>

definition error_result :: "string option \<Rightarrow> exn \<Rightarrow> json" where
  "error_result file_name e = rejected file_name (''error: '' @ str_exn e)"

definition extract_candidate_name :: "(exn + string) \<Rightarrow> loaded \<Rightarrow> string option \<Rightarrow> json" where
  "extract_candidate_name kickoff ld file_name =
     (case kickoff of
        Inl e \<Rightarrow> error_result file_name e
      | Inr result_str \<Rightarrow>
          (case ld of
             DecodeError msg \<Rightarrow> rejected file_name ''parse_error''
           | LoadRaised e \<Rightarrow> error_result file_name e
           | Loaded result_dict \<Rightarrow>
               (case validate_name result_dict file_name of
                  Inl e \<Rightarrow> error_result file_name e
                | Inr r \<Rightarrow> r)))"

section \<open>The criteria service: \<open>criteria_extractor.py\<close>\<close>

text \<open>Lines 67--71: the elements that are strings and not blank.\<close>

fun string_criteria :: "json list \<Rightarrow> string list" where
  "string_criteria [] = []"
| "string_criteria (JStr criterion # rest) =
     (if py_strip criterion \<noteq> [] then criterion # string_criteria rest
      else string_criteria rest)"
| "string_criteria (v # rest) = string_criteria rest"

text \<open>Lines 46--88, the inner \<open>try\<close> with its handler for \<open>JSONDecodeError\<close>.\<close>

definition parse_criteria :: "loaded \<Rightarrow> exn + string list" where
  "parse_criteria ld =
     (case ld of
        DecodeError msg \<Rightarrow>
          Inl (ValueError (''Failed to parse criteria extraction result: '' @ msg))
      | LoadRaised e \<Rightarrow> Inl e
      | Loaded criteria_list \<Rightarrow>
          (case criteria_list of
             JList xs \<Rightarrow> Inr (string_criteria xs)
           | _ \<Rightarrow> Inl (ValueError ''Criteria extraction returned invalid format (expected list)'')))"

text \<open>
  \<open>extract_criteria_from_text\<close>: an empty description raises before the crew is
  called (lines 27--29); every exception of the outer \<open>try\<close> is raised again as a
  \<open>ValueError\<close> (lines 90--92).
\<close>

definition extract_criteria_from_text ::
  "(exn + string) \<Rightarrow> loaded \<Rightarrow> string \<Rightarrow> exn + string list" where
  "extract_criteria_from_text kickoff ld job_description =
     (if job_description = [] \<or> py_strip job_description = []
      then Inl (ValueError ''Job description cannot be empty'')
      else
        (case (case kickoff of Inl e \<Rightarrow> Inl e | Inr result_str \<Rightarrow> parse_criteria ld) of
           Inl e \<Rightarrow> Inl (ValueError (''Failed to extract criteria: '' @ str_exn e))
         | Inr criteria_list \<Rightarrow> Inr criteria_list))"

section \<open>The retry decorator: \<open>crew_manager.py\<close>\<close>

text \<open>
  The decorated operation acts on the world outside and returns or raises: it is a
  function from the state of the world to its result and the new state.  A run of the
  wrapper records the number of calls of the operation and the arguments of
  \<open>asyncio.sleep\<close>.  The wrapper returns the value of the operation, raises its
  exception, or leaves the loop and returns \<open>None\<close>.
\<close>

datatype 'a outcome = Returned 'a | Returned_None | Raised exn

record 's run =
  world :: 's
  calls :: nat
  sleeps :: "int list"

fun retry_loop ::
  "('s \<Rightarrow> (exn + 'a) \<times> 's) \<Rightarrow> int \<Rightarrow> int \<Rightarrow> nat list \<Rightarrow> 's run \<Rightarrow> 'a outcome \<times> 's run" where
  "retry_loop func max_retries delay [] r = (Returned_None, r)"
| "retry_loop func max_retries delay (attempt # rest) r =
     (case func (world r) of
        (Inr v, w) \<Rightarrow> (Returned v, r\<lparr>world := w, calls := calls r + 1\<rparr>)
      | (Inl e, w) \<Rightarrow>
          if int attempt = max_retries - 1
          then (Raised e, r\<lparr>world := w, calls := calls r + 1\<rparr>)
          else retry_loop func max_retries delay rest
                 (r\<lparr>world := w, calls := calls r + 1,
                    sleeps := sleeps r @ [delay * (int attempt + 1)]\<rparr>))"

definition async_retry ::
  "int \<Rightarrow> int \<Rightarrow> ('s \<Rightarrow> (exn + 'a) \<times> 's) \<Rightarrow> 's \<Rightarrow> 'a outcome \<times> 's run" where
  "async_retry max_retries delay func w =
     retry_loop func max_retries delay [0..<nat max_retries]
       \<lparr>world = w, calls = 0, sleeps = []\<rparr>"


section \<open>Reading the results\<close>

text \<open>\<open>scores[k]\<close> on the returned dictionary: the value of the entry with that key.\<close>

definition dict_lookup :: "json \<Rightarrow> scores \<Rightarrow> int option" where
  "dict_lookup k d = map_option snd (find (\<lambda>(k', v). key_eq k' k) d)"

text \<open>A dictionary has no two entries with the same key.\<close>

fun keys_unique :: "scores \<Rightarrow> bool" where
  "keys_unique [] = True"
| "keys_unique ((k, v) # d) = (\<not> dict_has k d \<and> keys_unique d)"

text \<open>
  Line 153: \<open>not isinstance(result_dict, dict) or 'scores' not in result_dict\<close>.
\<close>

definition missing_scores :: "json \<Rightarrow> bool" where
  "missing_scores result_dict =
     (case result_dict of JDict kvs \<Rightarrow> ''scores'' \<notin> set (map fst kvs) | _ \<Rightarrow> True)"

text \<open>
  The sources that the name service itself sets when it gives up the proposed name
  (lines 60--122 and 151).
\<close>

definition rejection_sources :: "string list" where
  "rejection_sources =
     [''forbidden_example_name'', ''empty_result'', ''example_name_rejected'',
      ''placeholder_rejected'', ''invalid_structure'', ''name_too_long'', ''parse_error'']"

text \<open>
  The invariant that the specification gives for a \<open>NameExtractionResult\<close>, in the
  words of its data model: the confidence is an integer from 0 to 100, the source is one
  of the ten variants, and with every variant but \<open>content_extraction\<close> the name is
  the file name and the confidence is 0, or 100 for \<open>filename_fallback\<close>.
\<close>

definition enumerated_sources :: "string list" where
  "enumerated_sources =
     [''content_extraction'', ''filename_fallback'', ''empty_result'',
      ''example_name_rejected'', ''placeholder_rejected'', ''invalid_structure'',
      ''name_too_long'', ''forbidden_example_name'', ''parse_error'', ''error'']"

definition NameExtractionResult_invariant :: "string option \<Rightarrow> json \<Rightarrow> bool" where
  "NameExtractionResult_invariant file_name r =
     (case r of
        JDict kvs \<Rightarrow>
          (case dict_get kvs ''confidence'' JNone of
             JInt confidence \<Rightarrow>
               (case dict_get kvs ''source'' JNone of
                  JStr source \<Rightarrow>
                    0 \<le> confidence \<and> confidence \<le> 100 \<and> source \<in> set enumerated_sources \<and>
                    (if source = ''content_extraction'' then True
                     else dict_get kvs ''name'' JNone = opt_str file_name \<and>
                          confidence = (if source = ''filename_fallback'' then 100 else 0))
                | _ \<Rightarrow> False)
           | _ \<Rightarrow> False)
      | _ \<Rightarrow> False)"

section \<open>Properties of the retry decorator\<close>

lemma retry_loop_sleeps:
  "a < nat max_retries \<Longrightarrow> calls r = a \<Longrightarrow>
   sleeps r = map (\<lambda>k. delay * int k) [1..<Suc a] \<Longrightarrow>
   retry_loop func max_retries delay [a..<nat max_retries] r = (out, r') \<Longrightarrow>
   sleeps r' = map (\<lambda>k. delay * int k) [1..<calls r']"
proof (induction "nat max_retries - a" arbitrary: a r)
  case 0
  then show ?case by simp
next
  case (Suc d)
  have unfold: "[a..<nat max_retries] = a # [Suc a..<nat max_retries]"
    using Suc.prems(1) by (simp add: upt_conv_Cons)
  obtain res w where f: "func (world r) = (res, w)" by (cases "func (world r)")
  show ?case
  proof (cases res)
    case (Inr v)
    with Suc.prems f unfold show ?thesis by auto
  next
    case (Inl e)
    show ?thesis
    proof (cases "int a = max_retries - 1")
      case True
      with Suc.prems f unfold Inl show ?thesis by auto
    next
      case False
      let ?r = "r\<lparr>world := w, calls := calls r + 1,
                  sleeps := sleeps r @ [delay * (int a + 1)]\<rparr>"
      have lt: "Suc a < nat max_retries" using False Suc.prems(1) by linarith
      have step: "retry_loop func max_retries delay [Suc a..<nat max_retries] ?r = (out, r')"
        using Suc.prems(4) f unfold Inl False by simp
      have "sleeps ?r = map (\<lambda>k. delay * int k) [1..<Suc (Suc a)]"
        using Suc.prems(3) by (simp add: algebra_simps)
      moreover have "d = nat max_retries - Suc a" using Suc.hyps(2) by simp
      moreover have "calls ?r = Suc a" using Suc.prems(2) by simp
      ultimately show ?thesis using Suc.hyps(1)[of "Suc a" ?r] lt step by blast
    qed
  qed
qed

text \<open>
  In every run the wrapper sleeps between two calls only, and the sleep after the
  \<open>k\<close>-th failed call lasts \<open>delay * k\<close>.
\<close>

lemma async_retry_sleeps:
  "sleeps (snd (async_retry max_retries delay func w)) =
   map (\<lambda>k. delay * int k) [1..<calls (snd (async_retry max_retries delay func w))]"
proof (cases "0 < nat max_retries")
  case True
  obtain out r' where run: "async_retry max_retries delay func w = (out, r')"
    by (cases "async_retry max_retries delay func w")
  then have "retry_loop func max_retries delay [0..<nat max_retries]
       \<lparr>world = w, calls = 0, sleeps = []\<rparr> = (out, r')"
    by (simp add: async_retry_def)
  from retry_loop_sleeps[OF True _ _ this] run show ?thesis by simp
next
  case False
  then show ?thesis by (simp add: async_retry_def)
qed

text \<open>
  Claim C10.  With at least three attempts allowed, an operation that raises on its
  first two calls and returns \<open>v\<close> on the third makes the wrapper return \<open>v\<close>; the
  operation has then been called exactly three times, and the wrapper has slept
  \<open>delay * 1\<close> after the first failure and \<open>delay * 2\<close> after the second.  In
  every run the delay after a failed attempt is \<open>delay\<close> times the number of that
  attempt.
\<close>

theorem async_retry_third_attempt:
  assumes "3 \<le> max_retries"
    and "func w0 = (Inl e1, w1)" and "func w1 = (Inl e2, w2)" and "func w2 = (Inr v, w3)"
  shows "async_retry max_retries delay func w0 =
           (Returned v, \<lparr>world = w3, calls = 3, sleeps = [delay * 1, delay * 2]\<rparr>) \<and>
         (\<forall>w. sleeps (snd (async_retry max_retries delay func w)) =
              map (\<lambda>attempt_number. delay * int attempt_number)
                [1..<calls (snd (async_retry max_retries delay func w))])"
proof -
  have "[0..<nat max_retries] = 0 # 1 # 2 # [3..<nat max_retries]"
    using assms(1) by (simp add: upt_conv_Cons numeral_3_eq_3 numeral_2_eq_2)
  then have "async_retry max_retries delay func w0 =
           (Returned v, \<lparr>world = w3, calls = 3, sleeps = [delay * 1, delay * 2]\<rparr>)"
    using assms by (simp add: async_retry_def)
  moreover have "\<forall>w. sleeps (snd (async_retry max_retries delay func w)) =
              map (\<lambda>attempt_number. delay * int attempt_number)
                [1..<calls (snd (async_retry max_retries delay func w))]"
    by (intro allI async_retry_sleeps)
  ultimately show ?thesis by (rule conjI)
qed

theorem async_retry_third_attempt_witness:
  "async_retry 3 2
     (\<lambda>n::nat. (if n < 2 then Inl (Exception ''timeout'') else Inr (42::nat), Suc n)) 0 =
   (Returned 42, \<lparr>world = 3, calls = 3, sleeps = [2, 4]\<rparr>)"
  using async_retry_third_attempt
    [of 3 "\<lambda>n::nat. (if n < 2 then Inl (Exception ''timeout'') else Inr (42::nat), Suc n)"
        0 "Exception ''timeout''" 1 "Exception ''timeout''" 2 42 3 2]
  by simp

section \<open>Properties of the criteria service\<close>

text \<open>
  Claim C9, as the code has it.  When the response of the crew does not decode, the
  criteria service does not recover anything from the text: for every description that
  is not blank, the \<open>JSONDecodeError\<close> reaches the caller as a \<open>ValueError\<close> whose
  message carries the text of the decoding error.
\<close>

theorem criteria_decode_error_raises:
  "py_strip job_description \<noteq> [] \<Longrightarrow>
   extract_criteria_from_text (Inr result_str) (DecodeError msg) job_description =
     Inl (ValueError
       (''Failed to extract criteria: Failed to parse criteria extraction result: '' @ msg))"
  by (auto simp: extract_criteria_from_text_def parse_criteria_def py_strip_def)

theorem criteria_decode_error_raises_witness:
  "py_strip ''Need a Python developer'' \<noteq> [] \<and>
   extract_criteria_from_text (Inr ''Python, SQL'')
     (DecodeError ''Expecting value: line 1 column 1 (char 0)'') ''Need a Python developer'' =
   Inl (ValueError ''Failed to extract criteria: Failed to parse criteria extraction result: Expecting value: line 1 column 1 (char 0)'')"
  using criteria_decode_error_raises
    [of "''Need a Python developer''" "''Python, SQL''"
        "''Expecting value: line 1 column 1 (char 0)''"]
  by (simp add: py_strip_def py_isspace_def)

text \<open>
  The claim as the specification states it fails: the text \<open>not json\<close> does not decode
  (\<open>json.loads\<close> raises \<open>Expecting value: line 1 column 1 (char 0)\<close>), and the
  caller gets an exception, not an empty list of criteria.
\<close>

theorem criteria_malformed_output_counterexample:
  "extract_criteria_from_text (Inr ''not json'')
     (DecodeError ''Expecting value: line 1 column 1 (char 0)'') ''Need a Python developer'' =
   Inl (ValueError ''Failed to extract criteria: Failed to parse criteria extraction result: Expecting value: line 1 column 1 (char 0)'')"
  by (simp add: extract_criteria_from_text_def parse_criteria_def py_strip_def py_isspace_def)

section \<open>Properties of the name service\<close>

lemma lower_char_space: "py_isspace c \<Longrightarrow> lower_char c = c"
  by (auto simp: py_isspace_def lower_char_def Let_def)

lemma py_strip_id:
  assumes "s \<noteq> []" "\<not> py_isspace (hd s)" "\<not> py_isspace (last s)"
  shows "py_strip s = s"
proof -
  have "dropWhile py_isspace s = s" using assms(1,2) by (cases s) auto
  moreover have "dropWhile py_isspace (rev s) = rev s"
    using assms(1,3) by (cases "rev s") (auto simp: last_rev[symmetric] simp del: last_rev)
  ultimately show ?thesis by (simp add: py_strip_def)
qed

lemma letters_not_space: "\<not> py_isspace (CHR ''e'')" "\<not> py_isspace (CHR ''n'')"
  by (simp_all add: py_isspace_def)

lemma emily_chen_strip:
  assumes "py_lower s = ''emily chen''"
  shows "py_strip s = s"
proof -
  from assms have ne: "s \<noteq> []" by (auto simp: py_lower_def)
  have "hd (map lower_char s) = CHR ''e''" "last (map lower_char s) = CHR ''n''"
    using assms by (simp_all add: py_lower_def)
  then have h: "lower_char (hd s) = CHR ''e''" and l: "lower_char (last s) = CHR ''n''"
    using ne by (simp_all add: hd_map last_map)
  have "\<not> py_isspace (hd s)" using h lower_char_space letters_not_space by metis
  moreover have "\<not> py_isspace (last s)" using l lower_char_space letters_not_space by metis
  ultimately show ?thesis using ne by (rule_tac py_strip_id)
qed

text \<open>
  Claim C8.  When the decoded response is a \<open>dict\<close> whose \<open>name\<close> is a string equal
  to \<open>emily chen\<close> up to case, the service returns the file name, confidence 0 and the
  source \<open>forbidden_example_name\<close>, whatever the rest of the response holds (its
  \<open>confidence\<close> may be any value, or missing): no other rule is looked at before.
\<close>

theorem forbidden_example_name_first:
  assumes "dict_get kvs ''name'' (JStr []) = JStr proposed"
    and "py_lower proposed = ''emily chen''"
  shows "extract_candidate_name (Inr result_str) (Loaded (JDict kvs)) file_name =
           name_result (opt_str file_name) (JInt 0) (JStr ''forbidden_example_name'')"
  using assms emily_chen_strip[OF assms(2)]
  by (simp add: extract_candidate_name_def validate_name_def rejected_def)

theorem forbidden_example_name_first_witness:
  "extract_candidate_name (Inr ''{\"name\": \"Emily Chen\", \"confidence\": 95}'')
     (Loaded (JDict [(''name'', JStr ''Emily Chen''), (''confidence'', JInt 95)]))
     (Some ''resume_123.pdf'') =
   name_result (JStr ''resume_123.pdf'') (JInt 0) (JStr ''forbidden_example_name'')"
  using forbidden_example_name_first
    [of "[(''name'', JStr ''Emily Chen''), (''confidence'', JInt 95)]" "''Emily Chen''"
        "''{\"name\": \"Emily Chen\", \"confidence\": 95}''" "Some ''resume_123.pdf''"]
  by (simp add: dict_get_def py_lower_def lower_char_def char_of_eq_iff)


lemma validate_name_cases:
  assumes "validate_name result_dict file_name = Inr r"
  shows "(\<exists>source \<in> set rejection_sources. r = rejected file_name source)
       \<or> (truthy (opt_str file_name) \<and>
            r = name_result (opt_str file_name) (JInt 100) (JStr ''filename_fallback''))
       \<or> (\<exists>kvs unstripped confidence. result_dict = JDict kvs \<and>
            dict_get kvs ''name'' (JStr []) = JStr unstripped \<and>
            r = name_result (JStr (py_strip unstripped)) confidence
                  (if truthy (dict_get kvs ''source'' (JStr []))
                   then dict_get kvs ''source'' (JStr [])
                   else JStr ''content_extraction''))"
  using assms unfolding validate_name_def Let_def
  by (auto split: json.splits if_splits sum.splits simp: rejection_sources_def)

text \<open>
  Claim C7, as the code has it.  Every result of the name service is of one of three
  kinds.  A rejection: the name is the file name, the confidence is 0 and the source is
  one of \<open>forbidden_example_name\<close>, \<open>empty_result\<close>, \<open>example_name_rejected\<close>,
  \<open>placeholder_rejected\<close>, \<open>invalid_structure\<close>, \<open>name_too_long\<close> and
  \<open>parse_error\<close>, or the text \<open>error:\<close> followed by the message of an exception.
  The fallback: a file name is there, the name is the file name, the confidence is 100
  and the source is \<open>filename_fallback\<close>.  An acceptance: the name is the proposed
  name without surrounding whitespace, and the source is the one that the response
  gave, whatever it is, or \<open>content_extraction\<close> when the response gave none.
\<close>

theorem name_result_cases:
  "(\<exists>source. extract_candidate_name kickoff ld file_name = rejected file_name source \<and>
       (source \<in> set rejection_sources \<or> (\<exists>e. source = ''error: '' @ str_exn e)))
   \<or> (truthy (opt_str file_name) \<and>
        extract_candidate_name kickoff ld file_name =
          name_result (opt_str file_name) (JInt 100) (JStr ''filename_fallback''))
   \<or> (\<exists>kvs unstripped confidence. ld = Loaded (JDict kvs) \<and>
        dict_get kvs ''name'' (JStr []) = JStr unstripped \<and>
        extract_candidate_name kickoff ld file_name =
          name_result (JStr (py_strip unstripped)) confidence
            (if truthy (dict_get kvs ''source'' (JStr []))
             then dict_get kvs ''source'' (JStr [])
             else JStr ''content_extraction''))"
proof (cases kickoff)
  case (Inl e)
  then have "extract_candidate_name kickoff ld file_name =
      rejected file_name (''error: '' @ str_exn e)"
    by (simp add: extract_candidate_name_def error_result_def)
  then show ?thesis by blast
next
  case kick: (Inr result_str)
  show ?thesis
  proof (cases ld)
    case (DecodeError msg)
    have "''parse_error'' \<in> set rejection_sources" by (simp add: rejection_sources_def)
    moreover have "extract_candidate_name kickoff ld file_name = rejected file_name ''parse_error''"
      using kick DecodeError by (simp add: extract_candidate_name_def)
    ultimately show ?thesis by blast
  next
    case (LoadRaised e)
    with kick have "extract_candidate_name kickoff ld file_name =
        rejected file_name (''error: '' @ str_exn e)"
      by (simp add: extract_candidate_name_def error_result_def)
    then show ?thesis by blast
  next
    case (Loaded result_dict)
    show ?thesis
    proof (cases "validate_name result_dict file_name")
      case (Inl e)
      with kick Loaded have "extract_candidate_name kickoff ld file_name =
          rejected file_name (''error: '' @ str_exn e)"
        by (simp add: extract_candidate_name_def error_result_def)
      then show ?thesis by blast
    next
      case (Inr r)
      have run: "extract_candidate_name kickoff ld file_name = r"
        using kick Loaded Inr by (simp add: extract_candidate_name_def)
      from validate_name_cases[OF Inr] show ?thesis
        unfolding run using Loaded by blast
    qed
  qed
qed

text \<open>
  The invariant of the specification fails: a response that proposes a well-formed name
  with confidence 150 and the source \<open>header\<close> is accepted as it is, with a confidence
  above 100 and a source outside the ten variants.
\<close>

theorem name_invariant_counterexample:
  "extract_candidate_name
     (Inr ''{\"name\": \"Maria Garcia\", \"confidence\": 150, \"source\": \"header\"}'')
     (Loaded (JDict [(''name'', JStr ''Maria Garcia''), (''confidence'', JInt 150),
                     (''source'', JStr ''header'')]))
     (Some ''maria_garcia.pdf'') =
   name_result (JStr ''Maria Garcia'') (JInt 150) (JStr ''header'') \<and>
   \<not> NameExtractionResult_invariant (Some ''maria_garcia.pdf'')
       (name_result (JStr ''Maria Garcia'') (JInt 150) (JStr ''header''))"
  by code_simp

section \<open>Properties of the scoring service\<close>

subsection \<open>The groups of a match\<close>

text \<open>
  A match has one text for every group of its pattern; the matches of the pattern for
  complete objects are triples, so that the loop of lines 79--93 sees every match.
\<close>

lemma first_some_SomeD: "first_some f ks = Some r \<Longrightarrow> \<exists>k \<in> set ks. f k = Some r"
  by (induction ks) (auto split: option.splits)

lemma match_here_groups:
  "match_here p s = Some (gs, r) \<Longrightarrow> length gs = length (filter is_group p)"
proof (induction p arbitrary: s gs r)
  case Nil
  then show ?case by simp
next
  case (Cons a as)
  show ?case
  proof (cases a)
    case (Lit c)
    with Cons.prems obtain xs where "match_here as xs = Some (gs, r)"
      by (auto split: list.splits if_splits)
    from Cons.IH[OF this] Lit show ?thesis by simp
  next
    case (Many cl q)
    with Cons.prems obtain k where "match_here as (drop k s) = Some (gs, r)"
      by (auto dest!: first_some_SomeD)
    from Cons.IH[OF this] Many show ?thesis by simp
  next
    case (Group cl q)
    with Cons.prems obtain k gs' where "match_here as (drop k s) = Some (gs', r)"
      and "gs = take k s # gs'"
      by (auto dest!: first_some_SomeD)
    with Cons.IH[of "drop k s" gs' r] Group show ?thesis by simp
  qed
qed

lemma findall_groups:
  "gs \<in> set (findall p s) \<Longrightarrow> length gs = length (filter is_group p)"
proof (induction p s rule: findall.induct)
  case (1 p s)
  have unf: "findall p s =
     (case match_here p s of
        Some (gs, r) \<Rightarrow>
          (if length r < length s then gs # findall p r
           else gs # (case s of [] \<Rightarrow> [] | c # cs \<Rightarrow> findall p cs))
      | None \<Rightarrow> (case s of [] \<Rightarrow> [] | c # cs \<Rightarrow> findall p cs))"
    by (rule findall.simps)
  show ?case
  proof (cases "match_here p s")
    case None
    show ?thesis
    proof (cases s)
      case Nil
      with "1.prems" None unf show ?thesis by simp
    next
      case (Cons c cs)
      with "1.prems" None unf have "gs \<in> set (findall p cs)" by simp
      with "1.IH"(1)[OF None Cons] show ?thesis by simp
    qed
  next
    case (Some m)
    obtain gs' r where m: "m = (gs', r)" by (cases m)
    have len: "length gs' = length (filter is_group p)"
      using Some m by (auto dest: match_here_groups)
    show ?thesis
    proof (cases "gs = gs'")
      case True
      with len show ?thesis by simp
    next
      case False
      show ?thesis
      proof (cases "length r < length s")
        case True
        with "1.prems" Some m unf False have "gs \<in> set (findall p r)" by simp
        with "1.IH"(2)[OF Some m[symmetric] True] show ?thesis by simp
      next
        case nl: False
        show ?thesis
        proof (cases s)
          case Nil
          with "1.prems" Some m unf False nl show ?thesis by simp
        next
          case (Cons c cs)
          with "1.prems" Some m unf False nl have "gs \<in> set (findall p cs)" by simp
          with "1.IH"(3)[OF Some m[symmetric] nl Cons] show ?thesis by simp
        qed
      qed
    qed
  qed
qed

lemma complete_objects_are_triples:
  assumes "gs \<in> set (findall score_object_pattern s)"
  shows "\<exists>criterion score justification. gs = [criterion, score, justification]"
proof -
  have "length gs = 3"
    using findall_groups[OF assms] by (simp add: score_object_pattern_def lits_def ws_def)
  then show ?thesis by (auto simp: length_Suc_conv numeral_3_eq_3)
qed

text \<open>
  A match reads at least one character for every literal and every \<open>+\<close> of its
  pattern, so that no pattern of the service matches the empty string.
\<close>

lemma candidates_bounds:
  "k \<in> set (candidates q n) \<Longrightarrow> k \<le> n \<and> (q = Plus \<longrightarrow> 1 \<le> k)"
  by (cases q) auto

lemma match_here_consumes:
  "match_here p s = Some (gs, r) \<Longrightarrow> length r + sum_list (map min_length p) \<le> length s"
proof (induction p arbitrary: s gs r)
  case Nil
  then show ?case by simp
next
  case (Cons a as)
  have run: "length (takeWhile P s) \<le> length s" for P :: "char \<Rightarrow> bool"
    by (rule length_takeWhile_le)
  show ?case
  proof (cases a)
    case (Lit c)
    with Cons.prems obtain x xs where s: "s = x # xs" and "match_here as xs = Some (gs, r)"
      by (auto split: list.splits if_splits)
    from Cons.IH[OF this(2)] Lit s show ?thesis by simp
  next
    case (Many cl q)
    with Cons.prems obtain k where k: "k \<in> set (candidates q (length (takeWhile (in_cls cl) s)))"
      and m: "match_here as (drop k s) = Some (gs, r)"
      by (auto dest!: first_some_SomeD)
    from candidates_bounds[OF k] run[of "in_cls cl"]
    have "k \<le> length s" "q = Plus \<longrightarrow> 1 \<le> k" by auto
    with Cons.IH[OF m] Many show ?thesis by auto
  next
    case (Group cl q)
    with Cons.prems obtain k gs' where
      k: "k \<in> set (candidates q (length (takeWhile (in_cls cl) s)))"
      and m: "match_here as (drop k s) = Some (gs', r)"
      by (auto dest!: first_some_SomeD)
    from candidates_bounds[OF k] run[of "in_cls cl"]
    have "k \<le> length s" "q = Plus \<longrightarrow> 1 \<le> k" by auto
    with Cons.IH[OF m] Group show ?thesis by auto
  qed
qed

lemma patterns_consume:
  assumes "p \<in> {score_object_pattern, criterion_pattern, score_pattern, number_pattern}"
    and "match_here p s = Some (gs, r)"
  shows "length r < length s"
proof -
  from assms(1) have "1 \<le> sum_list (map min_length p)"
    by (auto simp: score_object_pattern_def criterion_pattern_def score_pattern_def
        number_pattern_def lits_def ws_def)
  with match_here_consumes[OF assms(2)] show ?thesis by simp
qed

subsection \<open>The dictionary of scores\<close>

lemma key_eq_refl: "key_eq a a"
  by (cases "number_of a") (simp_all add: key_eq_def)

lemma key_eq_JStr: "key_eq k (JStr c) \<longleftrightarrow> k = JStr c"
  by (cases "number_of k") (auto simp: key_eq_def)

lemma key_eq_sym: "key_eq a b \<Longrightarrow> key_eq b a"
  by (auto simp: key_eq_def split: option.splits)

lemma key_eq_trans: "key_eq a b \<Longrightarrow> key_eq b c \<Longrightarrow> key_eq a c"
  by (auto simp: key_eq_def split: option.splits)

lemma dict_has_Cons: "dict_has k ((k', v) # d) \<longleftrightarrow> key_eq k' k \<or> dict_has k d"
  by (simp add: dict_has_def)

lemma dict_has_Nil: "\<not> dict_has k []"
  by (simp add: dict_has_def)

lemma dict_has_append: "dict_has k (d @ d') \<longleftrightarrow> dict_has k d \<or> dict_has k d'"
  by (auto simp: dict_has_def list_ex_iff)

lemma dict_store_absent: "\<not> dict_has k d \<Longrightarrow> dict_store k v d = d @ [(k, v)]"
  by (induction d) (auto simp: dict_has_Cons dict_has_Nil)

lemma dict_store_entries:
  "(k, v) \<in> set (dict_store c n d) \<Longrightarrow> (k, v) \<in> set d \<or> (key_eq k c \<and> v = n)"
  by (induction d) (auto simp: key_eq_refl split: if_splits)

lemma dict_store_same_value:
  "\<forall>(k', v') \<in> set d. v' = v \<Longrightarrow> dict_has k d \<Longrightarrow> dict_store k v d = d"
  by (induction d) (auto simp: dict_has_Cons dict_has_Nil)

lemma fill_missing_append:
  "\<exists>added. fill_missing criteria d = d @ added \<and> distinct added \<and>
     set added = {(JStr c, 0) | c. c \<in> set criteria \<and> \<not> dict_has (JStr c) d}"
proof (induction criteria arbitrary: d)
  case Nil
  then show ?case by simp
next
  case (Cons c cs)
  show ?case
  proof (cases "dict_has (JStr c) d")
    case True
    from Cons.IH[of d] obtain added where
      a: "fill_missing cs d = d @ added" "distinct added"
         "set added = {(JStr c', 0) | c'. c' \<in> set cs \<and> \<not> dict_has (JStr c') d}" by blast
    have "set added = {(JStr c', 0) | c'. c' \<in> set (c # cs) \<and> \<not> dict_has (JStr c') d}"
      using a(3) True by auto
    with a(1,2) True show ?thesis by auto
  next
    case False
    let ?d = "d @ [(JStr c, 0)]"
    from Cons.IH[of ?d] obtain added where
      a: "fill_missing cs ?d = ?d @ added" "distinct added"
         "set added = {(JStr c', 0) | c'. c' \<in> set cs \<and> \<not> dict_has (JStr c') ?d}" by blast
    have has: "\<And>c'. dict_has (JStr c') ?d \<longleftrightarrow> dict_has (JStr c') d \<or> c' = c"
      by (auto simp: dict_has_append dict_has_Cons dict_has_Nil key_eq_JStr)
    have "set ((JStr c, 0) # added) =
          {(JStr c', 0) | c'. c' \<in> set (c # cs) \<and> \<not> dict_has (JStr c') d}"
      using a(3) False has by auto
    moreover have "distinct ((JStr c, 0) # added)"
      using a(2,3) has by auto
    moreover have "fill_missing (c # cs) d = d @ ((JStr c, 0) # added)"
      using a(1) False by (simp add: dict_store_absent)
    ultimately show ?thesis by blast
  qed
qed

lemma dict_lookup_append_has:
  "dict_has k d \<Longrightarrow> dict_lookup k (d @ d') = dict_lookup k d"
  by (induction d) (auto simp: dict_lookup_def dict_has_Cons dict_has_Nil)

lemma dict_lookup_append_absent:
  "\<not> dict_has k d \<Longrightarrow> dict_lookup k (d @ d') = dict_lookup k d'"
  by (induction d) (auto simp: dict_lookup_def dict_has_Cons dict_has_Nil)

lemma dict_lookup_Some_has: "dict_lookup k d = Some v \<Longrightarrow> dict_has k d"
  by (induction d) (auto simp: dict_lookup_def dict_has_Cons dict_has_Nil split: if_splits)

lemma dict_lookup_store:
  "dict_lookup k (dict_store c n d) = (if key_eq c k then Some n else dict_lookup k d)"
proof (induction d)
  case Nil
  then show ?case by (simp add: dict_lookup_def)
next
  case (Cons entry d)
  obtain k' v' where entry: "entry = (k', v')" by (cases entry)
  show ?case
  proof (cases "key_eq k' c")
    case True
    then have "key_eq c k \<longleftrightarrow> key_eq k' k"
      using key_eq_sym key_eq_trans by blast
    with True entry show ?thesis by (simp add: dict_lookup_def)
  next
    case False
    then have "\<not> (key_eq k' k \<and> key_eq c k)"
      using key_eq_sym key_eq_trans by blast
    with False entry Cons.IH show ?thesis by (auto simp: dict_lookup_def)
  qed
qed

lemma dict_has_store: "dict_has k (dict_store c n d) \<longleftrightarrow> dict_has k d \<or> key_eq c k"
proof (induction d)
  case Nil
  then show ?case by (simp add: dict_has_Cons dict_has_Nil)
next
  case (Cons entry d)
  obtain k' v' where entry: "entry = (k', v')" by (cases entry)
  show ?case
  proof (cases "key_eq k' c")
    case True
    then have "key_eq c k \<Longrightarrow> key_eq k' k" using key_eq_trans by blast
    with True entry show ?thesis by (auto simp: dict_has_Cons)
  next
    case False
    with entry Cons.IH show ?thesis by (auto simp: dict_has_Cons)
  qed
qed

lemma keys_unique_store: "keys_unique d \<Longrightarrow> keys_unique (dict_store c n d)"
proof (induction d)
  case Nil
  then show ?case by (simp add: dict_has_Nil)
next
  case (Cons entry d)
  obtain k' v' where entry: "entry = (k', v')" by (cases entry)
  show ?case
  proof (cases "key_eq k' c")
    case True
    with Cons.prems entry show ?thesis by simp
  next
    case False
    then have "\<not> key_eq c k'" using key_eq_sym by blast
    with False Cons entry show ?thesis by (simp add: dict_has_store)
  qed
qed

lemma keys_unique_lookup:
  "keys_unique d \<Longrightarrow> (k, v) \<in> set d \<Longrightarrow> dict_lookup k d = Some v"
proof (induction d)
  case Nil
  then show ?case by simp
next
  case (Cons entry d)
  obtain k' v' where entry: "entry = (k', v')" by (cases entry)
  show ?case
  proof (cases "(k, v) = (k', v')")
    case True
    with entry show ?thesis by (simp add: dict_lookup_def key_eq_refl)
  next
    case False
    with Cons.prems entry have mem: "(k, v) \<in> set d" by auto
    then have "key_eq k' k \<Longrightarrow> dict_has k' d"
      using key_eq_sym[of k' k] by (auto simp: dict_has_def list_ex_iff)
    with Cons.prems entry have "\<not> key_eq k' k" by auto
    moreover have "dict_lookup k d = Some v" using Cons.IH Cons.prems entry mem by simp
    ultimately show ?thesis using entry by (simp add: dict_lookup_def)
  qed
qed

lemma dict_lookup_zero:
  assumes "(JStr c, 0) \<in> set d" and "\<forall>(k, v) \<in> set d. v = 0"
  shows "dict_lookup (JStr c) d = Some 0"
  using assms by (induction d) (auto simp: dict_lookup_def key_eq_JStr)

lemma fill_missing_zeros:
  "\<forall>(k, v) \<in> set d. v = 0 \<Longrightarrow>
   fill_missing criteria d = foldl (\<lambda>d criterion. dict_store (JStr criterion) 0 d) d criteria"
proof (induction criteria arbitrary: d)
  case Nil
  then show ?case by simp
next
  case (Cons c cs)
  show ?case
  proof (cases "dict_has (JStr c) d")
    case True
    then have "dict_store (JStr c) 0 d = d" using Cons.prems by (rule_tac dict_store_same_value)
    with True Cons show ?thesis by simp
  next
    case False
    then have "dict_store (JStr c) 0 d = d @ [(JStr c, 0)]" by (rule dict_store_absent)
    moreover have "\<forall>(k, v) \<in> set (d @ [(JStr c, 0)]). v = 0" using Cons.prems by auto
    ultimately show ?thesis using False Cons.IH[of "d @ [(JStr c, 0)]"] by simp
  qed
qed

lemma fill_missing_empty: "fill_missing criteria [] = default_scores criteria"
  using fill_missing_zeros[of "[]" criteria] by (simp add: default_scores_def)

lemma set_default_scores: "set (default_scores criteria) = (\<lambda>c. (JStr c, 0)) ` set criteria"
proof -
  obtain added where a: "fill_missing criteria [] = [] @ added"
     "set added = {(JStr c, 0) | c. c \<in> set criteria \<and> \<not> dict_has (JStr c) []}"
    using fill_missing_append[of criteria "[]"] by blast
  then show ?thesis unfolding fill_missing_empty[symmetric] by (auto simp: dict_has_Nil)
qed

lemma distinct_default_scores: "distinct (default_scores criteria)"
proof -
  obtain added where "fill_missing criteria [] = [] @ added" "distinct added"
    using fill_missing_append[of criteria "[]"] by blast
  then show ?thesis unfolding fill_missing_empty[symmetric] by simp
qed

lemma default_scores_lookup:
  "c \<in> set criteria \<Longrightarrow> dict_lookup (JStr c) (default_scores criteria) = Some 0"
  by (rule dict_lookup_zero) (auto simp: set_default_scores)

subsection \<open>The stored scores\<close>

lemma clamp_score_value:
  assumes "clamp_score score = Inr v"
  shows "number_of score = None \<and> v = 0 \<or>
         (\<exists>q. number_of score = Some (Finite q) \<and>
              v = (if q < 0 then 0 else if 5 < q then 5 else \<lfloor>q\<rfloor>))"
proof (cases "number_of score")
  case None
  with assms show ?thesis by (simp add: clamp_score_def)
next
  case (Some x)
  show ?thesis
  proof (cases x)
    case (Finite q)
    have low: "q < 0 \<Longrightarrow> max 0 (min 5 \<lceil>q\<rceil>) = (0::int)" by (simp add: ceiling_le_iff)
    have high: "5 < q \<Longrightarrow> max 0 (min 5 \<lfloor>q\<rfloor>) = (5::int)" by (simp add: le_floor_iff)
    from assms Some Finite low high show ?thesis
      by (auto simp: clamp_score_def split: if_splits)
  next
    case PosInf
    with assms Some show ?thesis by (simp add: clamp_score_def)
  next
    case NegInf
    with assms Some show ?thesis by (simp add: clamp_score_def)
  next
    case NaN
    with assms Some show ?thesis by (simp add: clamp_score_def)
  qed
qed

lemma clamp_score_range:
  assumes "clamp_score score = Inr v"
  shows "0 \<le> v \<and> v \<le> 5"
proof -
  from clamp_score_value[OF assms] show ?thesis
  proof
    assume "number_of score = None \<and> v = 0"
    then show ?thesis by simp
  next
    assume "\<exists>q. number_of score = Some (Finite q) \<and>
              v = (if q < 0 then 0 else if 5 < q then 5 else \<lfloor>q\<rfloor>)"
    then obtain q :: rat where v: "v = (if q < 0 then 0 else if 5 < q then 5 else \<lfloor>q\<rfloor>)" by blast
    show ?thesis
    proof (cases "q < 0 \<or> 5 < q")
      case True
      with v show ?thesis by auto
    next
      case False
      then have "0 \<le> q" "q \<le> 5" by auto
      then have "0 \<le> \<lfloor>q\<rfloor>" "\<lfloor>q\<rfloor> \<le> 5" by (simp_all add: floor_le_iff le_floor_iff)
      with v False show ?thesis by auto
    qed
  qed
qed

lemma process_score_obj_entries:
  assumes "process_score_obj score_obj d = Inr d'" and "(k, v) \<in> set d'"
  shows "(k, v) \<in> set d \<or>
         (\<exists>criterion score. py_getitem score_obj ''criterion'' = Inr criterion \<and>
            key_eq k criterion \<and> py_getitem score_obj ''score'' = Inr score \<and>
            clamp_score score = Inr v)"
  using assms unfolding process_score_obj_def setitem_def
  by (auto split: sum.splits if_splits dest: dict_store_entries)

lemma process_scores_entries:
  "process_scores score_objs d = Inr d' \<Longrightarrow> (k, v) \<in> set d' \<Longrightarrow>
   (k, v) \<in> set d \<or>
   (\<exists>score_obj \<in> set score_objs. \<exists>criterion score.
       py_getitem score_obj ''criterion'' = Inr criterion \<and> key_eq k criterion \<and>
       py_getitem score_obj ''score'' = Inr score \<and> clamp_score score = Inr v)"
proof (induction score_objs arbitrary: d)
  case Nil
  then show ?case by simp
next
  case (Cons score_obj rest)
  from Cons.prems(1) obtain d1 where
    step: "process_score_obj score_obj d = Inr d1" and
    rest: "process_scores rest d1 = Inr d'"
    by (auto split: sum.splits)
  from Cons.IH[OF rest Cons.prems(2)] show ?case
  proof
    assume "(k, v) \<in> set d1"
    from process_score_obj_entries[OF step this] show ?thesis by auto
  next
    assume "\<exists>score_obj \<in> set rest. \<exists>criterion score.
       py_getitem score_obj ''criterion'' = Inr criterion \<and> key_eq k criterion \<and>
       py_getitem score_obj ''score'' = Inr score \<and> clamp_score score = Inr v"
    then show ?thesis by auto
  qed
qed

lemma process_scores_append:
  "process_scores (xs @ ys) d =
     (case process_scores xs d of Inl e \<Rightarrow> Inl e | Inr d' \<Rightarrow> process_scores ys d')"
  by (induction xs arbitrary: d) (auto split: sum.splits)

lemma process_score_obj_cases:
  assumes "process_score_obj score_obj d = Inr d'"
  shows "has_fields score_obj = Inr False \<and> d' = d \<or>
         (\<exists>criterion score n. has_fields score_obj = Inr True \<and>
            py_getitem score_obj ''criterion'' = Inr criterion \<and>
            py_getitem score_obj ''score'' = Inr score \<and>
            clamp_score score = Inr n \<and> d' = dict_store criterion n d)"
  using assms unfolding process_score_obj_def setitem_def
  by (auto split: sum.splits if_splits)

text \<open>
  Score objects with another criterion leave the score of a criterion as it is, and the
  last score object with a criterion decides its score.
\<close>

lemma process_scores_keeps:
  "process_scores score_objs d = Inr d' \<Longrightarrow>
   \<forall>score_obj \<in> set score_objs. \<forall>c. has_fields score_obj = Inr True \<longrightarrow>
      py_getitem score_obj ''criterion'' = Inr c \<longrightarrow> \<not> key_eq c k \<Longrightarrow>
   dict_lookup k d' = dict_lookup k d"
proof (induction score_objs arbitrary: d)
  case Nil
  then show ?case by simp
next
  case (Cons score_obj rest)
  from Cons.prems(1) obtain d1 where
    step: "process_score_obj score_obj d = Inr d1" and
    rest: "process_scores rest d1 = Inr d'"
    by (auto split: sum.splits)
  have "dict_lookup k d1 = dict_lookup k d"
    using process_score_obj_cases[OF step] Cons.prems(2) by (auto simp: dict_lookup_store)
  moreover have "dict_lookup k d' = dict_lookup k d1"
    using Cons.IH[OF rest] Cons.prems(2) by simp
  ultimately show ?case by simp
qed

lemma process_scores_stores:
  assumes run: "process_scores (before @ score_obj # after) d = Inr d'"
    and fields: "has_fields score_obj = Inr True"
    and crit: "py_getitem score_obj ''criterion'' = Inr criterion"
    and last: "\<forall>later \<in> set after. \<forall>c. has_fields later = Inr True \<longrightarrow>
                 py_getitem later ''criterion'' = Inr c \<longrightarrow> \<not> key_eq c criterion"
  shows "\<exists>score n. py_getitem score_obj ''score'' = Inr score \<and>
           clamp_score score = Inr n \<and> dict_lookup criterion d' = Some n"
proof -
  from run obtain d1 d2 where
    "process_scores before d = Inr d1" and
    step: "process_score_obj score_obj d1 = Inr d2" and
    rest: "process_scores after d2 = Inr d'"
    by (auto simp: process_scores_append split: sum.splits)
  from process_score_obj_cases[OF step] fields crit obtain score n where
    s: "py_getitem score_obj ''score'' = Inr score" "clamp_score score = Inr n"
       "d2 = dict_store criterion n d1"
    by auto
  have "dict_lookup criterion d2 = Some n"
    using s(3) by (simp add: dict_lookup_store key_eq_refl)
  with process_scores_keeps[OF rest last] s(1,2) show ?thesis by auto
qed

lemma process_scores_keys_unique:
  "process_scores score_objs d = Inr d' \<Longrightarrow> keys_unique d \<Longrightarrow> keys_unique d'"
proof (induction score_objs arbitrary: d)
  case Nil
  then show ?case by simp
next
  case (Cons score_obj rest)
  from Cons.prems(1) obtain d1 where
    step: "process_score_obj score_obj d = Inr d1" and
    rest: "process_scores rest d1 = Inr d'"
    by (auto split: sum.splits)
  have "keys_unique d1"
    using process_score_obj_cases[OF step] Cons.prems(2) by (auto simp: keys_unique_store)
  with Cons.IH[OF rest] show ?case .
qed

lemma recovered_scores_keys_unique:
  assumes "recovered_scores ld result_str criteria = Inr recovered"
  shows "keys_unique recovered"
proof -
  from assms obtain score_objs where "process_scores score_objs [] = Inr recovered"
    by (auto simp: recovered_scores_def split: sum.splits prod.splits)
  from process_scores_keys_unique[OF this] show ?thesis by simp
qed

lemma recovered_scores_range:
  assumes "recovered_scores ld result_str criteria = Inr recovered" and "(k, v) \<in> set recovered"
  shows "0 \<le> v \<and> v \<le> 5"
proof -
  from assms(1) obtain score_objs where "process_scores score_objs [] = Inr recovered"
    by (auto simp: recovered_scores_def split: sum.splits prod.splits)
  from process_scores_entries[OF this assms(2)] show ?thesis
    by (auto dest: clamp_score_range)
qed

lemma parse_response_range:
  assumes "parse_response ld result_str criteria = Inr scores" and "(k, v) \<in> set scores"
  shows "0 \<le> v \<and> v \<le> 5"
proof -
  from assms(1) obtain recovered where
    r: "recovered_scores ld result_str criteria = Inr recovered" and
    s: "scores = fill_missing criteria recovered"
    by (auto simp: parse_response_def split: sum.splits)
  obtain added where a: "fill_missing criteria recovered = recovered @ added"
    "set added = {(JStr c, 0) | c. c \<in> set criteria \<and> \<not> dict_has (JStr c) recovered}"
    using fill_missing_append by blast
  from assms(2) s a have "(k, v) \<in> set recovered \<or> v = 0" by auto
  then show ?thesis using recovered_scores_range[OF r] by auto
qed

lemma score_resume_returns:
  assumes "py_strip resume_content \<noteq> []" and "criteria \<noteq> []"
  shows "score_resume_against_criteria (Inr result_str) ld resume_content criteria =
           Inr (case parse_response ld result_str criteria of
                  Inl e \<Rightarrow> default_scores criteria | Inr scores \<Rightarrow> scores)"
proof -
  from assms(1) have "resume_content \<noteq> []" by (auto simp: py_strip_def)
  with assms show ?thesis
    by (simp add: score_resume_against_criteria_def split: sum.splits)
qed

lemma scores_of_missing: "missing_scores v \<Longrightarrow> scores_of v = JList []"
  by (auto simp: missing_scores_def scores_of_def split: json.splits option.splits
           dest: map_of_SomeD intro: rev_image_eqI)

lemma recover_no_data:
  "fst (recover result_str criteria) = No_data \<Longrightarrow>
   snd (recover result_str criteria) = Inr (scores_dict [])"
  by (auto simp: recover_def Let_def split: if_splits)

lemma scores_of_scores_dict: "scores_of (scores_dict objs) = JList objs"
  by (simp add: scores_of_def scores_dict_def)

lemma recover_tier4:
  "tier4_ran (fst (recover result_str criteria)) \<longleftrightarrow>
     findall score_object_pattern result_str = [] \<and>
     findall1 criterion_pattern result_str = [] \<and> findall1 score_pattern result_str = []"
  by (auto simp: recover_def Let_def tier4_ran_def)

lemma recover_tier3:
  "tier3_ran (fst (recover result_str criteria)) \<longleftrightarrow>
     findall score_object_pattern result_str = []"
  by (auto simp: recover_def Let_def tier3_ran_def)

text \<open>
  A complete object whose score has more digits than \<open>int\<close> accepts makes the loop of
  lines 79--93 raise, and the service returns the default scores.
\<close>

lemma over_long_score_gives_default:
  assumes "py_strip resume_content \<noteq> []" and "criteria \<noteq> []"
    and "findall score_object_pattern result_str = [criterion, score, justification] # matches"
    and "length score > int_max_str_digits"
  shows "score_resume_against_criteria (Inr result_str) (DecodeError msg) resume_content
           criteria = Inr (default_scores criteria)"
proof -
  have "\<exists>e. py_int_str score = Inl e" using assms(4) by (simp add: py_int_str_def)
  then have "\<exists>e. snd (recover result_str criteria) = Inl e"
    using assms(3) by (auto simp: recover_def as_scores_dict_def)
  then have "\<exists>e. recovered_scores (DecodeError msg) result_str criteria = Inl e"
    by (auto simp: recovered_scores_def load_or_recover_def split: prod.splits)
  then have "\<exists>e. parse_response (DecodeError msg) result_str criteria = Inl e"
    by (auto simp: parse_response_def)
  with score_resume_returns[OF assms(1,2), of result_str "DecodeError msg"]
  show ?thesis by auto
qed

subsection \<open>The order of the recovery tiers\<close>

text \<open>
  Claim C1, as the code has it.  A recovery step runs only when the step before it gave
  no score object: the scan for complete objects only after a \<open>JSONDecodeError\<close>, the
  scans for separate fields only when no complete object was found, the scan for
  numbers only when no pair of fields was formed.  The scan for numbers runs exactly
  when decoding failed and the text has no complete object, no \<open>criterion\<close> field and
  no \<open>score\<close> field.
\<close>

theorem tier_waterfall:
  assumes "load_or_recover ld result_str criteria = Inr (t, result_dict)"
  shows "(tier2_ran t \<longrightarrow> (\<exists>msg. ld = DecodeError msg)) \<and>
         (tier3_ran t \<longrightarrow> tier2_ran t \<and>
            reconstruct (findall score_object_pattern result_str) {} = Inr []) \<and>
         (tier4_ran t \<longrightarrow> tier3_ran t \<and>
            pair_fields (findall1 criterion_pattern result_str)
              (findall1 score_pattern result_str) = Inr []) \<and>
         (tier4_ran t \<longleftrightarrow>
            (\<exists>msg. ld = DecodeError msg) \<and>
            findall score_object_pattern result_str = [] \<and>
            findall1 criterion_pattern result_str = [] \<and>
            findall1 score_pattern result_str = [])"
proof (cases ld)
  case (Loaded v)
  with assms have "t = Direct_parse" by (simp add: load_or_recover_def)
  with Loaded show ?thesis by (simp add: tier2_ran_def tier3_ran_def tier4_ran_def)
next
  case (LoadRaised e)
  with assms show ?thesis by (simp add: load_or_recover_def)
next
  case (DecodeError msg)
  with assms have t: "t = fst (recover result_str criteria)"
    by (auto simp: load_or_recover_def)
  have t2: "tier2_ran t" unfolding t by (auto simp: recover_def Let_def tier2_ran_def)
  have t3: "tier3_ran t \<longleftrightarrow> findall score_object_pattern result_str = []"
    unfolding t by (rule recover_tier3)
  have t4: "tier4_ran t \<longleftrightarrow> findall score_object_pattern result_str = [] \<and>
     findall1 criterion_pattern result_str = [] \<and> findall1 score_pattern result_str = []"
    unfolding t by (rule recover_tier4)
  have t43: "tier4_ran t \<Longrightarrow> tier3_ran t" by (auto simp: tier3_ran_def tier4_ran_def)
  show ?thesis using DecodeError t2 t3 t4 t43 by (auto simp: pair_fields_def)
qed

theorem tier_waterfall_witness:
  "load_or_recover (DecodeError ''Expecting value: line 1 column 1 (char 0)'')
     ''Scores: 4 and 7'' [''X'', ''Y''] =
     Inr (Numeric_values,
          Inr (scores_dict
            [score_object ''X'' 4 ''Extracted from numeric values in response'',
             score_object ''Y'' 5 ''Extracted from numeric values in response''])) \<and>
   tier4_ran Numeric_values \<and>
   findall score_object_pattern ''Scores: 4 and 7'' = [] \<and>
   findall1 criterion_pattern ''Scores: 4 and 7'' = [] \<and>
   findall1 score_pattern ''Scores: 4 and 7'' = []"
proof -
  have run: "load_or_recover (DecodeError ''Expecting value: line 1 column 1 (char 0)'')
     ''Scores: 4 and 7'' [''X'', ''Y''] =
     Inr (Numeric_values,
          Inr (scores_dict
            [score_object ''X'' 4 ''Extracted from numeric values in response'',
             score_object ''Y'' 5 ''Extracted from numeric values in response'']))"
    by code_simp
  have t4: "tier4_ran Numeric_values" by (simp add: tier4_ran_def)
  from tier_waterfall[OF run] t4 run show ?thesis by blast
qed

text \<open>
  The claim as the specification states it fails.  The truncated response
  \<^verbatim>\<open>{"criterion": "X", "rating": 4\<close> does not decode and has a \<open>criterion\<close> field but
  no \<open>score\<close> field: the separate fields give no pair, and yet the scan for numbers,
  which would find \<open>4\<close>, does not run (line 106 tests \<open>criteria_matches or
  score_matches\<close>).
\<close>

theorem tier4_skipped_counterexample:
  "pair_fields (findall1 criterion_pattern ''{\"criterion\": \"X\", \"rating\": 4'')
     (findall1 score_pattern ''{\"criterion\": \"X\", \"rating\": 4'') = Inr [] \<and>
   findall1 number_pattern ''{\"criterion\": \"X\", \"rating\": 4'' = [''4''] \<and>
   load_or_recover (DecodeError (''Expecting '' @ quoted '','' @ '' delimiter: line 1 column 31 (char 30)''))
     ''{\"criterion\": \"X\", \"rating\": 4'' [''X''] =
     Inr (Separate_fields, Inr (scores_dict [])) \<and>
   \<not> tier4_ran Separate_fields"
  by code_simp

subsection \<open>A criterion given twice\<close>

text \<open>
  Claim C2 at a failing input.  A response that decodes and scores the criterion \<open>X\<close>
  twice, first with 1 and then with 2, gives \<open>X\<close> the score 2: the loop of lines
  159--172 stores every object under its criterion, so the last one stays.  The same
  two objects in a response that does not decode (its closing brackets are missing) go
  through lines 76--93, which skip a criterion seen before, and give \<open>X\<close> the score 1.
\<close>

theorem duplicate_criterion_last_wins:
  "score_resume_against_criteria
     (Inr ''{\"scores\": [{\"criterion\": \"X\", \"score\": 1, \"justification\": \"first\"}, {\"criterion\": \"X\", \"score\": 2, \"justification\": \"second\"}]}'')
     (Loaded (JDict [(''scores'',
        JList [score_object ''X'' 1 ''first'', score_object ''X'' 2 ''second''])]))
     ''Python developer'' [''X''] = Inr [(JStr ''X'', 2)] \<and>
   score_resume_against_criteria
     (Inr ''{\"scores\": [{\"criterion\": \"X\", \"score\": 1, \"justification\": \"first\"}, {\"criterion\": \"X\", \"score\": 2, \"justification\": \"second\"}'')
     (DecodeError (''Expecting '' @ quoted '','' @ '' delimiter: line 1 column 128 (char 127)''))
     ''Python developer'' [''X''] = Inr [(JStr ''X'', 1)]"
  by code_simp

subsection \<open>Scores from 0 to 5\<close>

text \<open>
  Claim C3, as the code has it.  Every score that the service returns is an integer
  from 0 to 5.  When the loop over the score objects ends without an exception, every
  score it stored is returned, and it is the score of one of the objects after
  clamping: 0 for a value that is no number, 0 for a number below 0, 5 for a number
  above 5, and otherwise the number without its fraction.  Nothing is lost then: for
  every score object with both fields whose criterion no other score object has, the
  result holds under that criterion the score of the object after clamping.
\<close>

theorem scores_clamped:
  assumes "py_strip resume_content \<noteq> []" and "criteria \<noteq> []"
  shows "\<exists>scores.
      score_resume_against_criteria (Inr result_str) ld resume_content criteria = Inr scores \<and>
      (\<forall>(k, v) \<in> set scores. 0 \<le> v \<and> v \<le> 5) \<and>
      (\<forall>t result_dict score_objs recovered.
          load_or_recover ld result_str criteria = Inr (t, Inr result_dict) \<and>
          py_iter (scores_of result_dict) = Inr score_objs \<and>
          process_scores score_objs [] = Inr recovered \<longrightarrow>
          (\<forall>(k, v) \<in> set recovered.
             (k, v) \<in> set scores \<and>
             (\<exists>score_obj \<in> set score_objs. \<exists>criterion score.
                 py_getitem score_obj ''criterion'' = Inr criterion \<and> key_eq k criterion \<and>
                 py_getitem score_obj ''score'' = Inr score \<and>
                 (number_of score = None \<and> v = 0 \<or>
                  (\<exists>q. number_of score = Some (Finite q) \<and>
                       v = (if q < 0 then 0 else if 5 < q then 5 else \<lfloor>q\<rfloor>))))) \<and>
          (\<forall>before score_obj after criterion.
             score_objs = before @ score_obj # after \<and>
             has_fields score_obj = Inr True \<and>
             py_getitem score_obj ''criterion'' = Inr criterion \<and>
             (\<forall>other \<in> set before \<union> set after. \<forall>c.
                 has_fields other = Inr True \<longrightarrow>
                 py_getitem other ''criterion'' = Inr c \<longrightarrow> \<not> key_eq c criterion) \<longrightarrow>
             (\<exists>score v.
                 py_getitem score_obj ''score'' = Inr score \<and>
                 dict_lookup criterion scores = Some v \<and>
                 (number_of score = None \<and> v = 0 \<or>
                  (\<exists>q. number_of score = Some (Finite q) \<and>
                       v = (if q < 0 then 0 else if 5 < q then 5 else \<lfloor>q\<rfloor>))))))"
proof -
  let ?scores = "case parse_response ld result_str criteria of
                   Inl e \<Rightarrow> default_scores criteria | Inr scores \<Rightarrow> scores"
  have run: "score_resume_against_criteria (Inr result_str) ld resume_content criteria =
               Inr ?scores"
    using assms by (rule score_resume_returns)
  have range: "\<forall>(k, v) \<in> set ?scores. 0 \<le> v \<and> v \<le> 5"
  proof (cases "parse_response ld result_str criteria")
    case (Inl e)
    then show ?thesis by (auto simp: set_default_scores)
  next
    case (Inr scores)
    then show ?thesis using parse_response_range[OF Inr] by auto
  qed
  have scores_eq: "\<exists>added. ?scores = recovered @ added"
    if l: "load_or_recover ld result_str criteria = Inr (t, Inr result_dict)"
      and i: "py_iter (scores_of result_dict) = Inr score_objs"
      and p: "process_scores score_objs [] = Inr recovered"
    for t result_dict score_objs recovered
  proof -
    have rec: "recovered_scores ld result_str criteria = Inr recovered"
      using l i p by (simp add: recovered_scores_def)
    obtain added where "fill_missing criteria recovered = recovered @ added"
      using fill_missing_append by blast
    with rec show ?thesis by (simp add: parse_response_def)
  qed
  have stored: "(k, v) \<in> set ?scores \<and>
       (\<exists>score_obj \<in> set score_objs. \<exists>criterion score.
           py_getitem score_obj ''criterion'' = Inr criterion \<and> key_eq k criterion \<and>
           py_getitem score_obj ''score'' = Inr score \<and>
           (number_of score = None \<and> v = 0 \<or>
            (\<exists>q. number_of score = Some (Finite q) \<and>
                 v = (if q < 0 then 0 else if 5 < q then 5 else \<lfloor>q\<rfloor>))))"
    if l: "load_or_recover ld result_str criteria = Inr (t, Inr result_dict)"
      and i: "py_iter (scores_of result_dict) = Inr score_objs"
      and p: "process_scores score_objs [] = Inr recovered"
      and kv: "(k, v) \<in> set recovered"
    for t result_dict score_objs recovered k v
  proof -
    from scores_eq[OF l i p] kv have kept: "(k, v) \<in> set ?scores" by auto
    from process_scores_entries[OF p kv] obtain score_obj criterion score where
      o: "score_obj \<in> set score_objs" "py_getitem score_obj ''criterion'' = Inr criterion"
         "key_eq k criterion" "py_getitem score_obj ''score'' = Inr score"
         "clamp_score score = Inr v"
      by auto
    from clamp_score_value[OF o(5)] o(1-4) kept show ?thesis by blast
  qed
  have complete: "\<exists>score v.
         py_getitem score_obj ''score'' = Inr score \<and>
         dict_lookup criterion ?scores = Some v \<and>
         (number_of score = None \<and> v = 0 \<or>
          (\<exists>q. number_of score = Some (Finite q) \<and>
               v = (if q < 0 then 0 else if 5 < q then 5 else \<lfloor>q\<rfloor>)))"
    if l: "load_or_recover ld result_str criteria = Inr (t, Inr result_dict)"
      and i: "py_iter (scores_of result_dict) = Inr score_objs"
      and p: "process_scores score_objs [] = Inr recovered"
      and split: "score_objs = before @ score_obj # after"
      and fields: "has_fields score_obj = Inr True"
      and crit: "py_getitem score_obj ''criterion'' = Inr criterion"
      and once: "\<forall>other \<in> set before \<union> set after. \<forall>c.
                 has_fields other = Inr True \<longrightarrow>
                 py_getitem other ''criterion'' = Inr c \<longrightarrow> \<not> key_eq c criterion"
    for t result_dict score_objs recovered before score_obj after criterion
  proof -
    from once have last: "\<forall>later \<in> set after. \<forall>c. has_fields later = Inr True \<longrightarrow>
                 py_getitem later ''criterion'' = Inr c \<longrightarrow> \<not> key_eq c criterion"
      by blast
    from process_scores_stores[OF p[unfolded split] fields crit last] obtain score n where
      s: "py_getitem score_obj ''score'' = Inr score" "clamp_score score = Inr n"
         "dict_lookup criterion recovered = Some n"
      by blast
    from scores_eq[OF l i p] obtain added where "?scores = recovered @ added" by blast
    then have "dict_lookup criterion ?scores = Some n"
      using s(3) dict_lookup_append_has[OF dict_lookup_Some_has[OF s(3)]] by simp
    with clamp_score_value[OF s(2)] s(1) show ?thesis by blast
  qed
  have all: "\<forall>t result_dict score_objs recovered.
          load_or_recover ld result_str criteria = Inr (t, Inr result_dict) \<and>
          py_iter (scores_of result_dict) = Inr score_objs \<and>
          process_scores score_objs [] = Inr recovered \<longrightarrow>
          (\<forall>(k, v) \<in> set recovered.
             (k, v) \<in> set ?scores \<and>
             (\<exists>score_obj \<in> set score_objs. \<exists>criterion score.
                 py_getitem score_obj ''criterion'' = Inr criterion \<and> key_eq k criterion \<and>
                 py_getitem score_obj ''score'' = Inr score \<and>
                 (number_of score = None \<and> v = 0 \<or>
                  (\<exists>q. number_of score = Some (Finite q) \<and>
                       v = (if q < 0 then 0 else if 5 < q then 5 else \<lfloor>q\<rfloor>))))) \<and>
          (\<forall>before score_obj after criterion.
             score_objs = before @ score_obj # after \<and>
             has_fields score_obj = Inr True \<and>
             py_getitem score_obj ''criterion'' = Inr criterion \<and>
             (\<forall>other \<in> set before \<union> set after. \<forall>c.
                 has_fields other = Inr True \<longrightarrow>
                 py_getitem other ''criterion'' = Inr c \<longrightarrow> \<not> key_eq c criterion) \<longrightarrow>
             (\<exists>score v.
                 py_getitem score_obj ''score'' = Inr score \<and>
                 dict_lookup criterion ?scores = Some v \<and>
                 (number_of score = None \<and> v = 0 \<or>
                  (\<exists>q. number_of score = Some (Finite q) \<and>
                       v = (if q < 0 then 0 else if 5 < q then 5 else \<lfloor>q\<rfloor>)))))"
  proof (intro allI impI, elim conjE, intro conjI)
    fix t result_dict score_objs recovered
    assume l: "load_or_recover ld result_str criteria = Inr (t, Inr result_dict)"
      and i: "py_iter (scores_of result_dict) = Inr score_objs"
      and p: "process_scores score_objs [] = Inr recovered"
    show "\<forall>(k, v) \<in> set recovered.
             (k, v) \<in> set ?scores \<and>
             (\<exists>score_obj \<in> set score_objs. \<exists>criterion score.
                 py_getitem score_obj ''criterion'' = Inr criterion \<and> key_eq k criterion \<and>
                 py_getitem score_obj ''score'' = Inr score \<and>
                 (number_of score = None \<and> v = 0 \<or>
                  (\<exists>q. number_of score = Some (Finite q) \<and>
                       v = (if q < 0 then 0 else if 5 < q then 5 else \<lfloor>q\<rfloor>))))"
      using stored[OF l i p] by blast
    show "\<forall>before score_obj after criterion.
             score_objs = before @ score_obj # after \<and>
             has_fields score_obj = Inr True \<and>
             py_getitem score_obj ''criterion'' = Inr criterion \<and>
             (\<forall>other \<in> set before \<union> set after. \<forall>c.
                 has_fields other = Inr True \<longrightarrow>
                 py_getitem other ''criterion'' = Inr c \<longrightarrow> \<not> key_eq c criterion) \<longrightarrow>
             (\<exists>score v.
                 py_getitem score_obj ''score'' = Inr score \<and>
                 dict_lookup criterion ?scores = Some v \<and>
                 (number_of score = None \<and> v = 0 \<or>
                  (\<exists>q. number_of score = Some (Finite q) \<and>
                       v = (if q < 0 then 0 else if 5 < q then 5 else \<lfloor>q\<rfloor>))))"
      using complete[OF l i p] by blast
  qed
  from run range all show ?thesis by (intro exI[of _ ?scores] conjI)
qed

theorem scores_clamped_witness:
  "py_strip ''Python developer'' \<noteq> [] \<and> [''X'', ''Y''] \<noteq> [] \<and>
   score_resume_against_criteria
     (Inr ''{\"criterion\": \"X\", \"score\": 7, \"justification\": \"ok\"}, {\"criterion\": \"X\", \"score\": 2, \"justification\": \"dup\"}'')
     (DecodeError ''Extra data: line 1 column 54 (char 53)'')
     ''Python developer'' [''X'', ''Y''] = Inr [(JStr ''X'', 5), (JStr ''Y'', 0)]"
proof -
  have h: "py_strip ''Python developer'' \<noteq> []" by code_simp
  have e: "score_resume_against_criteria
     (Inr ''{\"criterion\": \"X\", \"score\": 7, \"justification\": \"ok\"}, {\"criterion\": \"X\", \"score\": 2, \"justification\": \"dup\"}'')
     (DecodeError ''Extra data: line 1 column 54 (char 53)'')
     ''Python developer'' [''X'', ''Y''] = Inr [(JStr ''X'', 5), (JStr ''Y'', 0)]"
    by code_simp
  show ?thesis
    using h e scores_clamped[OF h, of "[''X'', ''Y'']"
      "''{\"criterion\": \"X\", \"score\": 7, \"justification\": \"ok\"}, {\"criterion\": \"X\", \"score\": 2, \"justification\": \"dup\"}''"
      "DecodeError ''Extra data: line 1 column 54 (char 53)''"]
    by simp
qed

text \<open>
  The claim as the specification states it fails.  In the response
  \<^verbatim>\<open>{"scores": [{"criterion": "X", "score": 7}, null]}\<close> the score 7 of \<open>X\<close> is above
  5, but the element \<open>null\<close> after it makes the loop raise a \<open>TypeError\<close>, and the
  handler of lines 184--189 returns 0 for \<open>X\<close>, not 5.
\<close>

theorem score_not_clamped_counterexample:
  "score_resume_against_criteria
     (Inr ''{\"scores\": [{\"criterion\": \"X\", \"score\": 7}, null]}'')
     (Loaded (JDict [(''scores'',
        JList [JDict [(''criterion'', JStr ''X''), (''score'', JInt 7)], JNone])]))
     ''Python developer'' [''X''] = Inr [(JStr ''X'', 0)]"
  by code_simp

subsection \<open>Criteria without a score\<close>

text \<open>
  Claim C4, as the code has it.  Let \<open>recovered\<close> be the scores that the service has
  stored when line 174 is reached.  The result is \<open>recovered\<close>, unchanged and in the
  same order, so that every recovered criterion, asked for or not, keeps its score,
  followed by one entry with the score 0 for every criterion of the list asked for that
  has no entry in \<open>recovered\<close>, and by nothing else.  When line 174 is not reached
  because the inner \<open>try\<close> raises, the result is the default dictionary, which holds
  the criteria asked for, each once and with the score 0, and nothing else.
\<close>

theorem missing_criteria_filled:
  assumes "py_strip resume_content \<noteq> []" and "criteria \<noteq> []"
  shows "\<exists>scores.
      score_resume_against_criteria (Inr result_str) ld resume_content criteria = Inr scores \<and>
      (\<forall>recovered. recovered_scores ld result_str criteria = Inr recovered \<longrightarrow>
          (\<exists>added. scores = recovered @ added \<and> distinct added \<and>
             set added = {(JStr criterion, 0) | criterion.
                            criterion \<in> set criteria \<and> \<not> dict_has (JStr criterion) recovered}) \<and>
          (\<forall>(k, v) \<in> set recovered. dict_lookup k scores = Some v) \<and>
          (\<forall>criterion \<in> set criteria. \<not> dict_has (JStr criterion) recovered \<longrightarrow>
              dict_lookup (JStr criterion) scores = Some 0)) \<and>
      ((\<exists>e. recovered_scores ld result_str criteria = Inl e) \<longrightarrow>
          scores = default_scores criteria \<and>
          (\<forall>criterion \<in> set criteria. dict_lookup (JStr criterion) scores = Some 0)) \<and>
      distinct (default_scores criteria) \<and>
      set (default_scores criteria) = (\<lambda>criterion. (JStr criterion, 0)) ` set criteria"
proof -
  let ?scores = "case parse_response ld result_str criteria of
                   Inl e \<Rightarrow> default_scores criteria | Inr scores \<Rightarrow> scores"
  have run: "score_resume_against_criteria (Inr result_str) ld resume_content criteria =
               Inr ?scores"
    using assms by (rule score_resume_returns)
  have raised: "(\<exists>e. recovered_scores ld result_str criteria = Inl e) \<longrightarrow>
      ?scores = default_scores criteria \<and>
      (\<forall>criterion \<in> set criteria. dict_lookup (JStr criterion) ?scores = Some 0)"
    by (auto simp: parse_response_def default_scores_lookup)
  have filled: "(\<exists>added. ?scores = recovered @ added \<and> distinct added \<and>
             set added = {(JStr criterion, 0) | criterion.
                            criterion \<in> set criteria \<and> \<not> dict_has (JStr criterion) recovered}) \<and>
          (\<forall>(k, v) \<in> set recovered. dict_lookup k ?scores = Some v) \<and>
          (\<forall>criterion \<in> set criteria. \<not> dict_has (JStr criterion) recovered \<longrightarrow>
              dict_lookup (JStr criterion) ?scores = Some 0)"
    if rec: "recovered_scores ld result_str criteria = Inr recovered" for recovered
  proof -
    obtain added where a: "fill_missing criteria recovered = recovered @ added"
      "distinct added"
      "set added = {(JStr c, 0) | c. c \<in> set criteria \<and> \<not> dict_has (JStr c) recovered}"
      using fill_missing_append by blast
    have s: "?scores = recovered @ added" using rec a(1) by (simp add: parse_response_def)
    have unique: "keys_unique recovered" using rec by (rule recovered_scores_keys_unique)
    have kept: "dict_lookup k (recovered @ added) = Some v"
      if "(k, v) \<in> set recovered" for k v
    proof -
      have "dict_lookup k recovered = Some v" using unique that by (rule keys_unique_lookup)
      then show ?thesis
        using dict_lookup_append_has[OF dict_lookup_Some_has] by simp
    qed
    have zero: "dict_lookup (JStr c) (recovered @ added) = Some 0"
      if "c \<in> set criteria" "\<not> dict_has (JStr c) recovered" for c
    proof -
      have "dict_lookup (JStr c) (recovered @ added) = dict_lookup (JStr c) added"
        using that(2) by (rule dict_lookup_append_absent)
      also have "\<dots> = Some 0" using that a(3) by (intro dict_lookup_zero) auto
      finally show ?thesis .
    qed
    from a(2,3) kept zero show ?thesis unfolding s by auto
  qed
  from run raised filled distinct_default_scores set_default_scores
  show ?thesis by (intro exI[of _ ?scores]) blast
qed

theorem missing_criteria_filled_witness:
  "py_strip ''Python developer'' \<noteq> [] \<and> [''X''] \<noteq> [] \<and>
   recovered_scores (Loaded (JDict [(''scores'',
        JList [JDict [(''criterion'', JStr ''Z''), (''score'', JInt 3)]])]))
     ''{\"scores\": [{\"criterion\": \"Z\", \"score\": 3}]}'' [''X''] = Inr [(JStr ''Z'', 3)] \<and>
   score_resume_against_criteria
     (Inr ''{\"scores\": [{\"criterion\": \"Z\", \"score\": 3}]}'')
     (Loaded (JDict [(''scores'',
        JList [JDict [(''criterion'', JStr ''Z''), (''score'', JInt 3)]])]))
     ''Python developer'' [''X''] = Inr [(JStr ''Z'', 3), (JStr ''X'', 0)]"
proof -
  have h: "py_strip ''Python developer'' \<noteq> []" by code_simp
  have r: "recovered_scores (Loaded (JDict [(''scores'',
        JList [JDict [(''criterion'', JStr ''Z''), (''score'', JInt 3)]])]))
     ''{\"scores\": [{\"criterion\": \"Z\", \"score\": 3}]}'' [''X''] = Inr [(JStr ''Z'', 3)]"
    by code_simp
  have e: "score_resume_against_criteria
     (Inr ''{\"scores\": [{\"criterion\": \"Z\", \"score\": 3}]}'')
     (Loaded (JDict [(''scores'',
        JList [JDict [(''criterion'', JStr ''Z''), (''score'', JInt 3)]])]))
     ''Python developer'' [''X''] = Inr [(JStr ''Z'', 3), (JStr ''X'', 0)]"
    by code_simp
  show ?thesis
    using h r e missing_criteria_filled[OF h, of "[''X'']"
      "''{\"scores\": [{\"criterion\": \"Z\", \"score\": 3}]}''"
      "Loaded (JDict [(''scores'',
        JList [JDict [(''criterion'', JStr ''Z''), (''score'', JInt 3)]])])"]
    by simp
qed

text \<open>
  The claim as the specification states it fails.  In the response
  \<^verbatim>\<open>{"scores": [{"criterion": "Z", "score": 3}, null]}\<close> the criterion \<open>Z\<close>, which
  is not asked for, has the score 3, but the element \<open>null\<close> after it makes the loop
  raise a \<open>TypeError\<close>, and the handler of lines 184--189 returns the criteria asked
  for only: \<open>Z\<close> is not retained.
\<close>

theorem extra_criterion_dropped_counterexample:
  "score_resume_against_criteria
     (Inr ''{\"scores\": [{\"criterion\": \"Z\", \"score\": 3}, null]}'')
     (Loaded (JDict [(''scores'',
        JList [JDict [(''criterion'', JStr ''Z''), (''score'', JInt 3)], JNone])]))
     ''Python developer'' [''X''] = Inr [(JStr ''X'', 0)]"
  by code_simp

subsection \<open>A decoded response without \<open>scores\<close>\<close>

text \<open>
  Claim C5, as the code has it.  When the response decodes to a value that is not a
  \<open>dict\<close> with the key \<open>scores\<close>, no recovery step runs on the text: the value is
  replaced by an empty list of score objects (lines 153--156), nothing is recovered, and
  every criterion asked for gets 0, whatever the text holds.
\<close>

theorem missing_scores_no_recovery:
  assumes "py_strip resume_content \<noteq> []" and "criteria \<noteq> []" and "missing_scores v"
  shows "load_or_recover (Loaded v) result_str criteria = Inr (Direct_parse, Inr v) \<and>
         \<not> tier2_ran Direct_parse \<and>
         recovered_scores (Loaded v) result_str criteria = Inr [] \<and>
         score_resume_against_criteria (Inr result_str) (Loaded v) resume_content criteria =
           Inr (default_scores criteria)"
proof -
  have rec: "recovered_scores (Loaded v) result_str criteria = Inr []"
    using assms(3) by (simp add: recovered_scores_def load_or_recover_def scores_of_missing)
  then have "parse_response (Loaded v) result_str criteria = Inr (default_scores criteria)"
    by (simp add: parse_response_def fill_missing_empty)
  with score_resume_returns[OF assms(1,2), of result_str "Loaded v"] rec show ?thesis
    by (simp add: load_or_recover_def tier2_ran_def)
qed

theorem missing_scores_no_recovery_witness:
  "py_strip ''Python developer'' \<noteq> [] \<and> [''X''] \<noteq> [] \<and>
   missing_scores (JList [score_object ''X'' 3 ''ok'']) \<and>
   score_resume_against_criteria
     (Inr ''[{\"criterion\": \"X\", \"score\": 3, \"justification\": \"ok\"}]'')
     (Loaded (JList [score_object ''X'' 3 ''ok'']))
     ''Python developer'' [''X''] = Inr (default_scores [''X''])"
proof -
  have h: "py_strip ''Python developer'' \<noteq> []" by code_simp
  have m: "missing_scores (JList [score_object ''X'' 3 ''ok''])"
    by (simp add: missing_scores_def)
  from missing_scores_no_recovery[OF h _ m, of "[''X'']"] h m show ?thesis by simp
qed

text \<open>
  The claim as the specification states it fails.  The response
  \<^verbatim>\<open>[{"criterion": "X", "score": 3, "justification": "ok"}]\<close> is valid JSON, a list
  without a \<open>scores\<close> field.  The pattern for complete objects matches in it, but the
  scan does not run: \<open>X\<close> gets 0, not 3.
\<close>

theorem tier2_skipped_counterexample:
  "findall score_object_pattern ''[{\"criterion\": \"X\", \"score\": 3, \"justification\": \"ok\"}]'' =
     [[''X'', ''3'', ''ok'']] \<and>
   load_or_recover (Loaded (JList [score_object ''X'' 3 ''ok'']))
     ''[{\"criterion\": \"X\", \"score\": 3, \"justification\": \"ok\"}]'' [''X''] =
     Inr (Direct_parse, Inr (JList [score_object ''X'' 3 ''ok''])) \<and>
   \<not> tier2_ran Direct_parse \<and>
   score_resume_against_criteria
     (Inr ''[{\"criterion\": \"X\", \"score\": 3, \"justification\": \"ok\"}]'')
     (Loaded (JList [score_object ''X'' 3 ''ok'']))
     ''Python developer'' [''X''] = Inr [(JStr ''X'', 0)]"
  by code_simp

subsection \<open>No exception from parsing\<close>

text \<open>
  Claim C6.  Once the input is not empty and the crew has returned a text, the service
  returns scores and raises nothing, whatever the text is and whatever \<open>json.loads\<close>
  does on it.  When recovery fails (an exception inside the inner \<open>try\<close>, no score
  object recovered, or no pattern found at all) the result is the default dictionary,
  whose entries are exactly the criteria asked for, each with 0.
\<close>

theorem parse_and_recover_never_raises:
  assumes "py_strip resume_content \<noteq> []" and "criteria \<noteq> []"
  shows "\<exists>scores.
      score_resume_against_criteria (Inr result_str) ld resume_content criteria = Inr scores \<and>
      ((\<exists>e. recovered_scores ld result_str criteria = Inl e) \<longrightarrow>
          scores = default_scores criteria) \<and>
      (recovered_scores ld result_str criteria = Inr [] \<longrightarrow> scores = default_scores criteria) \<and>
      ((\<exists>msg. ld = DecodeError msg) \<and> fst (recover result_str criteria) = No_data \<longrightarrow>
          scores = default_scores criteria) \<and>
      set (default_scores criteria) = (\<lambda>criterion. (JStr criterion, 0)) ` set criteria"
proof -
  let ?scores = "case parse_response ld result_str criteria of
                   Inl e \<Rightarrow> default_scores criteria | Inr scores \<Rightarrow> scores"
  have run: "score_resume_against_criteria (Inr result_str) ld resume_content criteria =
               Inr ?scores"
    using assms by (rule score_resume_returns)
  have raised: "(\<exists>e. recovered_scores ld result_str criteria = Inl e) \<longrightarrow>
      ?scores = default_scores criteria"
    by (auto simp: parse_response_def)
  have empty: "recovered_scores ld result_str criteria = Inr [] \<longrightarrow>
      ?scores = default_scores criteria"
    by (auto simp: parse_response_def fill_missing_empty)
  have "(\<exists>msg. ld = DecodeError msg) \<and> fst (recover result_str criteria) = No_data \<longrightarrow>
      recovered_scores ld result_str criteria = Inr []"
    by (auto simp: recovered_scores_def load_or_recover_def scores_of_scores_dict
             dest!: recover_no_data split: prod.splits)
  with empty have no_data: "(\<exists>msg. ld = DecodeError msg) \<and>
      fst (recover result_str criteria) = No_data \<longrightarrow> ?scores = default_scores criteria"
    by blast
  from run raised empty no_data set_default_scores show ?thesis by blast
qed

theorem parse_and_recover_never_raises_witness:
  "py_strip ''Python developer'' \<noteq> [] \<and> [''X'', ''Y''] \<noteq> [] \<and>
   fst (recover ''no data here'' [''X'', ''Y'']) = No_data \<and>
   score_resume_against_criteria (Inr ''no data here'')
     (DecodeError ''Expecting value: line 1 column 1 (char 0)'')
     ''Python developer'' [''X'', ''Y''] = Inr (default_scores [''X'', ''Y''])"
proof -
  have h: "py_strip ''Python developer'' \<noteq> []" by code_simp
  have n: "fst (recover ''no data here'' [''X'', ''Y'']) = No_data" by code_simp
  from parse_and_recover_never_raises[OF h, of "[''X'', ''Y'']" "''no data here''"
      "DecodeError ''Expecting value: line 1 column 1 (char 0)''"] h n
  show ?thesis by auto
qed

end
